theory Spec2Isabelle
  imports Main "HOL-Library.Multiset"
begin

section \<open>Values of the JavaScript host\<close>

text \<open>
  The repository is a blog: a Node script that builds the manifest of the posts, and
  React components that show them. The sources hold two revisions of the script
  (\<^verbatim>\<open>scripts/generate-manifest.cjs\<close>, which maps the files to entries and writes them, and
  a later one, which also normalises the dates and sorts), the home page
  (\<^verbatim>\<open>src/App.tsx\<close>), the list of posts (\<^verbatim>\<open>src/components/BlogList.tsx\<close>) and two
  revisions of the page of a post (\<^verbatim>\<open>BlogPost.tsx\<close>, the later one with the \<^verbatim>\<open>code\<close>
  component). What they call and do not define is taken from the host: the file system,
  the \<^verbatim>\<open>front-matter\<close> package, \<^verbatim>\<open>Date.parse\<close> and \<^verbatim>\<open>fetch\<close>.

  Front-matter attributes are whatever the YAML loader hands back, so they are modelled
  as JavaScript values. A number is given by what the scripts can observe of it: whether
  it is truthy (neither zero nor \<^verbatim>\<open>NaN\<close>) and what \<^verbatim>\<open>String\<close> prints for it. A
  JavaScript string is a list of code units, written as a \<open>string\<close>.
\<close>

datatype jsval =
    Undefined
  | Null
  | Bool bool
  | Num bool string
  | Str string
  | Arr "jsval list"
  | Obj "(string \<times> jsval) list"

text \<open>
  An attribute is a plain value or a \<^verbatim>\<open>Date\<close> object (what the YAML loader builds for
  a timestamp), given by its time value in milliseconds since the epoch. A time value
  outside \<open>\<plusminus>8.64e15\<close> stands for the invalid date.
\<close>

datatype attr = Plain jsval | Timestamp int

datatype error =
    FsError string
  | YAMLException
  | RangeError
  | TypeError
  | NetworkError

text \<open>\<^verbatim>\<open>ToBoolean\<close>: what \<^verbatim>\<open>x || y\<close> and \<^verbatim>\<open>if (x)\<close> test.\<close>

fun truthy :: "jsval \<Rightarrow> bool" where
  "truthy Undefined = False"
| "truthy Null = False"
| "truthy (Bool b) = b"
| "truthy (Num nonzero printed) = nonzero"
| "truthy (Str s) = (s \<noteq> [])"
| "truthy (Arr xs) = True"
| "truthy (Obj kvs) = True"

fun truthy_attr :: "attr \<Rightarrow> bool" where
  "truthy_attr (Plain v) = truthy v"
| "truthy_attr (Timestamp t) = True"

text \<open>\<^verbatim>\<open>a || b\<close> on attribute values.\<close>

definition or_else :: "attr \<Rightarrow> attr \<Rightarrow> attr" where
  "or_else a b = (if truthy_attr a then a else b)"

subsection \<open>Values to strings\<close>

definition digit_char :: "nat \<Rightarrow> char" where
  "digit_char d = char_of (48 + d)"

fun join_with :: "string \<Rightarrow> string list \<Rightarrow> string" where
  "join_with sep [] = []"
| "join_with sep [x] = x"
| "join_with sep (x # y # ys) = x @ sep @ join_with sep (y # ys)"

text \<open>
  \<^verbatim>\<open>String(v)\<close>. An array joins its elements with commas, \<^verbatim>\<open>null\<close> and
  \<^verbatim>\<open>undefined\<close> elements giving the empty string; a plain object prints as
  \<^verbatim>\<open>[object Object]\<close>.
\<close>

fun String_js :: "jsval \<Rightarrow> string" where
  "String_js Undefined = ''undefined''"
| "String_js Null = ''null''"
| "String_js (Bool b) = (if b then ''true'' else ''false'')"
| "String_js (Num nonzero printed) = printed"
| "String_js (Str s) = s"
| "String_js (Arr xs) =
     join_with '','' (map (\<lambda>x. if x = Null \<or> x = Undefined then [] else String_js x) xs)"
| "String_js (Obj kvs) = ''[object Object]''"

subsection \<open>Dates\<close>

text \<open>
  The UTC calendar date of a day number (days since 1970-01-01), as year, month
  (1 to 12) and day of the month.
\<close>

definition civil_from_days :: "int \<Rightarrow> int \<times> int \<times> int" where
  "civil_from_days z =
     (let z' = z + 719468;
          era = z' div 146097;
          doe = z' mod 146097;
          yoe = (doe - doe div 1460 + doe div 36524 - doe div 146096) div 365;
          doy = doe - (365 * yoe + yoe div 4 - yoe div 100);
          mp = (5 * doy + 2) div 153;
          d = doy - (153 * mp + 2) div 5 + 1;
          m = (if mp < 10 then mp + 3 else mp - 9);
          y = yoe + era * 400 + (if m \<le> 2 then 1 else 0)
      in (y, m, d))"

definition msPerDay :: int where
  "msPerDay = 86400000"

definition two_digits :: "int \<Rightarrow> string" where
  "two_digits n = [digit_char (nat (n div 10 mod 10)), digit_char (nat (n mod 10))]"

definition three_digits :: "int \<Rightarrow> string" where
  "three_digits n = digit_char (nat (n div 100 mod 10)) # two_digits n"

definition four_digits :: "int \<Rightarrow> string" where
  "four_digits n = two_digits (n div 100) @ two_digits n"

definition six_digits :: "int \<Rightarrow> string" where
  "six_digits n = two_digits (n div 10000) @ four_digits n"

text \<open>
  The year of an ISO string: four digits from 0 to 9999, otherwise a sign and six digits
  (the expanded years of ECMAScript).
\<close>

definition iso_year :: "int \<Rightarrow> string" where
  "iso_year y =
     (if 0 \<le> y \<and> y \<le> 9999 then four_digits y
      else (if y < 0 then CHR ''-'' else CHR ''+'') # six_digits (abs y))"

definition year_of :: "int \<Rightarrow> int" where
  "year_of t = fst (civil_from_days (t div msPerDay))"

definition month_of :: "int \<Rightarrow> int" where
  "month_of t = fst (snd (civil_from_days (t div msPerDay)))"

definition day_of :: "int \<Rightarrow> int" where
  "day_of t = snd (snd (civil_from_days (t div msPerDay)))"

text \<open>
  \<^verbatim>\<open>Date.prototype.toISOString\<close>: \<^verbatim>\<open>YYYY-MM-DDTHH:mm:ss.sssZ\<close> in UTC; it throws a
  \<^verbatim>\<open>RangeError\<close> on an invalid date.
\<close>

definition toISOString :: "int \<Rightarrow> error + string" where
  "toISOString t =
     (if abs t \<le> 8640000000000000 then
        (let ms = t mod msPerDay in
         Inr (iso_year (year_of t) @ ''-'' @ two_digits (month_of t) @ ''-'' @ two_digits (day_of t)
              @ ''T'' @ two_digits (ms div 3600000) @ '':'' @ two_digits (ms div 60000 mod 60)
              @ '':'' @ two_digits (ms div 1000 mod 60) @ ''.'' @ three_digits (ms mod 1000) @ ''Z''))
      else Inl RangeError)"

section \<open>The manifest builder\<close>

text \<open>
  What the script reads from its host: the listing of the posts directory and the
  content of a file in it (\<open>None\<close> where the call throws), the \<^verbatim>\<open>front-matter\<close>
  package (\<open>None\<close> where it throws on malformed YAML; otherwise the attributes and the
  body), \<^verbatim>\<open>Date.parse\<close> (\<open>None\<close> for \<^verbatim>\<open>NaN\<close>), and the path of the manifest as
  \<^verbatim>\<open>path.join(__dirname, '../src/posts/manifest.json')\<close> resolves it.
\<close>

record attributes =
  a_title :: attr
  a_date :: attr
  a_slug :: attr
  a_tags :: attr

record host =
  readdirSync :: "string list option"
  readFileSync :: "string \<Rightarrow> string option"
  fm :: "string \<Rightarrow> (attributes \<times> string) option"
  Date_parse :: "string \<Rightarrow> int option"
  manifestPath :: string

text \<open>The attributes of a file with no front-matter: every key is absent.\<close>

definition no_attributes :: attributes where
  "no_attributes =
     \<lparr>a_title = Plain Undefined, a_date = Plain Undefined,
      a_slug = Plain Undefined, a_tags = Plain Undefined\<rparr>"

text \<open>One manifest entry; \<open>'d\<close> is the type of the date field.\<close>

record 'd PostMetadata =
  title :: attr
  date :: 'd
  slug :: attr
  filename :: string
  tags :: attr

text \<open>
  A JSON document whose arrays hold post entries: the value handed to
  \<^verbatim>\<open>JSON.stringify\<close> and the value \<^verbatim>\<open>res.json()\<close> gives back.
\<close>

datatype 'e doc =
    DocArr "'e list"
  | DocObj "(string \<times> 'e doc) list"
  | DocNull
  | DocBool bool
  | DocNum bool string
  | DocStr string

text \<open>
  The outcome of a run of the script: the exit code of the process, what it printed,
  the uncaught exception reported on standard error, and the document written to
  \<^verbatim>\<open>manifest.json\<close> (\<open>None\<close>: \<^verbatim>\<open>writeFileSync\<close> was never called).
\<close>

record 'e outcome =
  exit_code :: nat
  stdout :: "string list"
  stderr :: "error list"
  written :: "'e doc option"

definition endsWith :: "string \<Rightarrow> string \<Rightarrow> bool" where
  "endsWith s suf = (length suf \<le> length s \<and> drop (length s - length suf) s = suf)"

text \<open>\<^verbatim>\<open>filename.replace(/\.md$/, '')\<close>.\<close>

definition strip_md :: "string \<Rightarrow> string" where
  "strip_md f = (if endsWith f ''.md'' then take (length f - 3) f else f)"

text \<open>\<^verbatim>\<open>fs.readdirSync(postsDir).filter(f => f.endsWith('.md'))\<close>.\<close>

definition files :: "host \<Rightarrow> error + string list" where
  "files h =
     (case readdirSync h of
        None \<Rightarrow> Inl (FsError ''src/posts'')
      | Some names \<Rightarrow> Inr (filter (\<lambda>f. endsWith f ''.md'') names))"

text \<open>
  The date normalisation of the later revision (the variable \<^verbatim>\<open>dateStr\<close>, lines 15 to 21):
  \<^verbatim>\<open>attributes.date.toISOString().slice(0, 10)\<close> for a \<^verbatim>\<open>Date\<close>,
  \<^verbatim>\<open>String(attributes.date).slice(0, 10)\<close> for any other truthy value, and \<^verbatim>\<open>''\<close>
  otherwise.
\<close>

fun dateStr :: "attr \<Rightarrow> error + string" where
  "dateStr (Timestamp t) =
     (case toISOString t of Inl e \<Rightarrow> Inl e | Inr s \<Rightarrow> Inr (take 10 s))"
| "dateStr (Plain v) = (if truthy v then Inr (take 10 (String_js v)) else Inr [])"

text \<open>
  The callback of \<^verbatim>\<open>files.map\<close>, later revision: read the file, parse it, and build
  the entry with \<^verbatim>\<open>attributes.title || filename\<close>, the normalised date,
  \<^verbatim>\<open>attributes.slug || filename.replace(/\.md$/, '')\<close>, the file name and
  \<^verbatim>\<open>attributes.tags || []\<close>.
\<close>

definition post_of :: "host \<Rightarrow> string \<Rightarrow> error + string PostMetadata" where
  "post_of h name =
     (case readFileSync h name of
        None \<Rightarrow> Inl (FsError name)
      | Some content \<Rightarrow>
          (case fm h content of
             None \<Rightarrow> Inl YAMLException
           | Some (attrs, body) \<Rightarrow>
               (case dateStr (a_date attrs) of
                  Inl e \<Rightarrow> Inl e
                | Inr d \<Rightarrow>
                    Inr \<lparr>title = or_else (a_title attrs) (Plain (Str name)),
                         date = d,
                         slug = or_else (a_slug attrs) (Plain (Str (strip_md name))),
                         filename = name,
                         tags = or_else (a_tags attrs) (Plain (Arr []))\<rparr>)))"

text \<open>
  The callback of \<^verbatim>\<open>files.map\<close> in \<^verbatim>\<open>scripts/generate-manifest.cjs\<close>: the same, with
  \<^verbatim>\<open>attributes.date || ''\<close> as the date.
\<close>

definition post_of0 :: "host \<Rightarrow> string \<Rightarrow> error + attr PostMetadata" where
  "post_of0 h name =
     (case readFileSync h name of
        None \<Rightarrow> Inl (FsError name)
      | Some content \<Rightarrow>
          (case fm h content of
             None \<Rightarrow> Inl YAMLException
           | Some (attrs, body) \<Rightarrow>
               Inr \<lparr>title = or_else (a_title attrs) (Plain (Str name)),
                    date = or_else (a_date attrs) (Plain (Str [])),
                    slug = or_else (a_slug attrs) (Plain (Str (strip_md name))),
                    filename = name,
                    tags = or_else (a_tags attrs) (Plain (Arr []))\<rparr>))"

text \<open>\<^verbatim>\<open>Array.prototype.map\<close> with a callback that may throw: the first exception ends it.\<close>

fun map_result :: "('a \<Rightarrow> error + 'b) \<Rightarrow> 'a list \<Rightarrow> error + 'b list" where
  "map_result f [] = Inr []"
| "map_result f (x # xs) =
     (case f x of
        Inl e \<Rightarrow> Inl e
      | Inr y \<Rightarrow> (case map_result f xs of Inl e \<Rightarrow> Inl e | Inr ys \<Rightarrow> Inr (y # ys)))"

subsection \<open>Sorting\<close>

text \<open>
  \<^verbatim>\<open>(a, b) => new Date(b.date).getTime() - new Date(a.date).getTime()\<close>; \<open>None\<close> is
  \<^verbatim>\<open>NaN\<close>, which any subtraction with an invalid date gives.
\<close>

definition comparefn :: "(string \<Rightarrow> int option) \<Rightarrow> ('e \<Rightarrow> string) \<Rightarrow> 'e \<Rightarrow> 'e \<Rightarrow> int option" where
  "comparefn parse dt a b =
     (case (parse (dt b), parse (dt a)) of
        (Some tb, Some ta) \<Rightarrow> Some (tb - ta)
      | _ \<Rightarrow> None)"

text \<open>\<^verbatim>\<open>SortCompare\<close> of \<^verbatim>\<open>Array.prototype.sort\<close>: a \<^verbatim>\<open>NaN\<close> from the comparator counts as 0.\<close>

definition SortCompare :: "('e \<Rightarrow> 'e \<Rightarrow> int option) \<Rightarrow> 'e \<Rightarrow> 'e \<Rightarrow> int" where
  "SortCompare cmp x y = (case cmp x y of None \<Rightarrow> 0 | Some v \<Rightarrow> v)"

text \<open>
  \<^verbatim>\<open>Array.prototype.sort\<close> as Node's engine runs it on an array of fewer than 64
  elements (its TimSort, whose shortest run is then the whole array). First the run at
  the start of the array is counted: it descends when the comparator puts the second
  element before the first, and then goes on while each element comes before the one
  ahead of it and is reversed at the end; otherwise it goes on while no element comes
  before the one ahead of it.
\<close>

fun extend_run :: "('e \<Rightarrow> 'e \<Rightarrow> int) \<Rightarrow> bool \<Rightarrow> 'e \<Rightarrow> 'e list \<Rightarrow> 'e list \<times> 'e list" where
  "extend_run c descending previous [] = ([], [])"
| "extend_run c descending previous (x # xs) =
     (if (if descending then c x previous \<ge> 0 else c x previous < 0) then ([], x # xs)
      else (case extend_run c descending x xs of (run, rest) \<Rightarrow> (x # run, rest)))"

fun count_and_make_run :: "('e \<Rightarrow> 'e \<Rightarrow> int) \<Rightarrow> 'e list \<Rightarrow> 'e list \<times> 'e list" where
  "count_and_make_run c [] = ([], [])"
| "count_and_make_run c [x] = ([x], [])"
| "count_and_make_run c (x0 # x1 # xs) =
     (let descending = (c x1 x0 < 0)
      in (case extend_run c descending x1 xs of
            (run, rest) \<Rightarrow>
              (if descending then rev (x0 # x1 # run) else x0 # x1 # run, rest)))"

text \<open>
  Then every element after the run is put into the sorted part by binary insertion: the
  search halves the part, going left where the comparator puts the new element before
  the middle one and right otherwise, and the element is inserted where it ends.
\<close>

function insertion_point :: "('e \<Rightarrow> 'e \<Rightarrow> int) \<Rightarrow> 'e \<Rightarrow> 'e list \<Rightarrow> nat" where
  "insertion_point c pivot xs =
     (if xs = [] then 0
      else (let mid = length xs div 2
            in if c pivot (xs ! mid) < 0 then insertion_point c pivot (take mid xs)
               else Suc mid + insertion_point c pivot (drop (Suc mid) xs)))"
  by pat_completeness auto
termination
  by (relation "measure (\<lambda>(c, pivot, xs). length xs)") auto

declare insertion_point.simps [simp del]

definition binary_insertion :: "('e \<Rightarrow> 'e \<Rightarrow> int) \<Rightarrow> 'e list \<Rightarrow> 'e \<Rightarrow> 'e list" where
  "binary_insertion c sorted_part pivot =
     (let i = insertion_point c pivot sorted_part
      in take i sorted_part @ [pivot] @ drop i sorted_part)"

text \<open>
  An array of 64 elements or more the engine cuts into several such runs, which it
  merges. With a consistent comparator that gives the same array as this function, the
  one stable sorted order; with a comparator that answers \<^verbatim>\<open>NaN\<close> it gives an order of
  its own, which this function is not a model of: for such arrays nothing below rests on
  the order.
\<close>

definition sort_by :: "('e \<Rightarrow> 'e \<Rightarrow> int option) \<Rightarrow> 'e list \<Rightarrow> 'e list" where
  "sort_by cmp xs =
     (case count_and_make_run (SortCompare cmp) xs of
        (run, rest) \<Rightarrow> foldl (binary_insertion (SortCompare cmp)) run rest)"

subsection \<open>The two revisions of the script\<close>

text \<open>
  How a run ends: with an uncaught exception, or after \<^verbatim>\<open>writeFileSync\<close> and the
  message of \<^verbatim>\<open>console.log\<close>, which names the path of the manifest.
\<close>

definition abort :: "error \<Rightarrow> 'e outcome" where
  "abort e = \<lparr>exit_code = 1, stdout = [], stderr = [e], written = None\<rparr>"

definition finish :: "string \<Rightarrow> 'e list \<Rightarrow> 'e outcome" where
  "finish pth ps =
     \<lparr>exit_code = 0, stdout = [''Manifest written to '' @ pth],
      stderr = [], written = Some (DocArr ps)\<rparr>"

text \<open>The entries of the later revision, before \<^verbatim>\<open>writeFileSync\<close>: mapped, then sorted.\<close>

definition posts :: "host \<Rightarrow> error + string PostMetadata list" where
  "posts h =
     (case files h of
        Inl e \<Rightarrow> Inl e
      | Inr fs \<Rightarrow>
          (case map_result (post_of h) fs of
             Inl e \<Rightarrow> Inl e
           | Inr ps \<Rightarrow> Inr (sort_by (comparefn (Date_parse h) date) ps)))"

text \<open>The entries of \<^verbatim>\<open>scripts/generate-manifest.cjs\<close>: mapped, in directory order.\<close>

definition posts0 :: "host \<Rightarrow> error + attr PostMetadata list" where
  "posts0 h =
     (case files h of
        Inl e \<Rightarrow> Inl e
      | Inr fs \<Rightarrow> map_result (post_of0 h) fs)"

text \<open>
  A run of the script. An exception nobody catches ends the Node process with exit
  code 1 after printing it; the write is the last statement but one.
\<close>

definition generate_manifest :: "host \<Rightarrow> string PostMetadata outcome" where
  "generate_manifest h =
     (case posts h of Inl e \<Rightarrow> abort e | Inr ps \<Rightarrow> finish (manifestPath h) ps)"

definition generate_manifest0 :: "host \<Rightarrow> attr PostMetadata outcome" where
  "generate_manifest0 h =
     (case posts0 h of Inl e \<Rightarrow> abort e | Inr ps \<Rightarrow> finish (manifestPath h) ps)"

text \<open>
  \<^verbatim>\<open>new Date(a) >= new Date(b)\<close> on two date strings: a comparison with \<^verbatim>\<open>NaN\<close> is
  false.
\<close>

definition date_ge :: "(string \<Rightarrow> int option) \<Rightarrow> string \<Rightarrow> string \<Rightarrow> bool" where
  "date_ge parse a b = (case (parse a, parse b) of (Some x, Some y) \<Rightarrow> y \<le> x | _ \<Rightarrow> False)"

subsection \<open>A date parser and a posts directory to run the script on\<close>

definition digit_val :: "char \<Rightarrow> nat option" where
  "digit_val c = (let n = (of_char c :: nat) in if 48 \<le> n \<and> n \<le> 57 then Some (n - 48) else None)"

fun digits_val :: "string \<Rightarrow> nat \<Rightarrow> nat option" where
  "digits_val [] acc = Some acc"
| "digits_val (c # cs) acc =
     (case digit_val c of None \<Rightarrow> None | Some d \<Rightarrow> digits_val cs (10 * acc + d))"

definition days_from_civil :: "int \<Rightarrow> int \<Rightarrow> int \<Rightarrow> int" where
  "days_from_civil y m d =
     (let y' = (if m \<le> 2 then y - 1 else y);
          era = y' div 400;
          yoe = y' mod 400;
          doy = (153 * (if m > 2 then m - 3 else m + 9) + 2) div 5 + d - 1;
          doe = yoe * 365 + yoe div 4 - yoe div 100 + doy
      in era * 146097 + doe - 719468)"

text \<open>
  \<^verbatim>\<open>Date.parse\<close> as Node's engine reads the date-only form \<^verbatim>\<open>YYYY-MM-DD\<close>: a month
  from 01 to 12 and a day from 01 to 31, as midnight UTC; a day past the end of its month
  runs on into the next one (\<^verbatim>\<open>2025-02-30\<close> is 2 March). Every other string is \<^verbatim>\<open>NaN\<close>
  in this example of a parser; the engine reads more forms, which is why the models of
  the scripts take the parser from the host.
\<close>

definition iso_date_parse :: "string \<Rightarrow> int option" where
  "iso_date_parse s =
     (if length s = 10 \<and> s ! 4 = CHR ''-'' \<and> s ! 7 = CHR ''-'' then
        (case (digits_val (take 4 s) 0, digits_val (take 2 (drop 5 s)) 0, digits_val (drop 8 s) 0) of
           (Some y, Some m, Some d) \<Rightarrow>
             (if 1 \<le> m \<and> m \<le> 12 \<and> 1 \<le> d \<and> d \<le> 31
              then Some ((days_from_civil (int y) (int m) 1 + int d - 1) * msPerDay) else None)
         | _ \<Rightarrow> None)
      else None)"

text \<open>
  A posts directory: \<^verbatim>\<open>a.md\<close> dated 2025-01-01 and \<^verbatim>\<open>b.md\<close> dated 2025-06-01 (YAML
  timestamps, which the loader turns into \<^verbatim>\<open>Date\<close> objects), \<^verbatim>\<open>c.md\<close> without
  front-matter, and the manifest of an earlier run.
\<close>

definition newline :: char where
  "newline = CHR 0x0A"

definition a_md :: string where
  "a_md = ''---'' @ [newline] @ ''date: 2025-01-01'' @ [newline] @ ''---'' @ [newline] @ ''A''"

definition b_md :: string where
  "b_md = ''---'' @ [newline] @ ''date: 2025-06-01'' @ [newline] @ ''---'' @ [newline] @ ''B''"

definition c_md :: string where
  "c_md = ''C''"

definition example_fm :: "string \<Rightarrow> (attributes \<times> string) option" where
  "example_fm s =
     (if s = a_md then Some (no_attributes\<lparr>a_date := Timestamp 1735689600000\<rparr>, ''A'')
      else if s = b_md then Some (no_attributes\<lparr>a_date := Timestamp 1748736000000\<rparr>, ''B'')
      else Some (no_attributes, s))"

definition example_host :: host where
  "example_host =
     \<lparr>readdirSync = Some [''a.md'', ''b.md'', ''c.md'', ''manifest.json''],
      readFileSync = (\<lambda>n. if n = ''a.md'' then Some a_md else if n = ''b.md'' then Some b_md
                          else if n = ''c.md'' then Some c_md else None),
      fm = example_fm,
      Date_parse = iso_date_parse,
      manifestPath = ''/repo/src/posts/manifest.json''\<rparr>"

definition entry_a :: "string PostMetadata" where
  "entry_a = \<lparr>title = Plain (Str ''a.md''), date = ''2025-01-01'', slug = Plain (Str ''a''),
              filename = ''a.md'', tags = Plain (Arr [])\<rparr>"

definition entry_b :: "string PostMetadata" where
  "entry_b = \<lparr>title = Plain (Str ''b.md''), date = ''2025-06-01'', slug = Plain (Str ''b''),
              filename = ''b.md'', tags = Plain (Arr [])\<rparr>"

definition entry_c :: "string PostMetadata" where
  "entry_c = \<lparr>title = Plain (Str ''c.md''), date = [], slug = Plain (Str ''c''),
              filename = ''c.md'', tags = Plain (Arr [])\<rparr>"

text \<open>The manifest the earlier revision writes for that directory.\<close>

definition example_manifest0 :: "attr PostMetadata list" where
  "example_manifest0 =
     [\<lparr>title = Plain (Str ''a.md''), date = Timestamp 1735689600000, slug = Plain (Str ''a''),
       filename = ''a.md'', tags = Plain (Arr [])\<rparr>,
      \<lparr>title = Plain (Str ''b.md''), date = Timestamp 1748736000000, slug = Plain (Str ''b''),
       filename = ''b.md'', tags = Plain (Arr [])\<rparr>,
      \<lparr>title = Plain (Str ''c.md''), date = Plain (Str []), slug = Plain (Str ''c''),
       filename = ''c.md'', tags = Plain (Arr [])\<rparr>]"

text \<open>
  The same directory with the contents of \<^verbatim>\<open>b.md\<close> and \<^verbatim>\<open>c.md\<close> exchanged: \<^verbatim>\<open>a.md\<close>
  dated 2025-01-01, \<^verbatim>\<open>b.md\<close> without front-matter, \<^verbatim>\<open>c.md\<close> dated 2025-06-01.
\<close>

definition undated_second_host :: host where
  "undated_second_host =
     example_host\<lparr>readFileSync :=
       (\<lambda>n. if n = ''a.md'' then Some a_md else if n = ''b.md'' then Some c_md
            else if n = ''c.md'' then Some b_md else None)\<rparr>"

definition undated_b :: "string PostMetadata" where
  "undated_b = \<lparr>title = Plain (Str ''b.md''), date = [], slug = Plain (Str ''b''),
                filename = ''b.md'', tags = Plain (Arr [])\<rparr>"

definition june_c :: "string PostMetadata" where
  "june_c = \<lparr>title = Plain (Str ''c.md''), date = ''2025-06-01'', slug = Plain (Str ''c''),
             filename = ''c.md'', tags = Plain (Arr [])\<rparr>"

text \<open>The same directory where every file declares \<^verbatim>\<open>tags: azure\<close>, a text and not a list.\<close>

definition text_tags_host :: host where
  "text_tags_host =
     example_host\<lparr>fm := (\<lambda>s. Some (no_attributes\<lparr>a_tags := Plain (Str ''azure'')\<rparr>, s))\<rparr>"

text \<open>The same directory where every file declares its date as the text \<^verbatim>\<open>January 5, 2025\<close>.\<close>

definition text_date_host :: host where
  "text_date_host =
     example_host\<lparr>fm := (\<lambda>s. Some (no_attributes\<lparr>a_date := Plain (Str ''January 5, 2025'')\<rparr>, s))\<rparr>"

text \<open>
  The same directory where every file declares the instant 10000-01-01T00:00:00Z, which
  the YAML timestamp \<^verbatim>\<open>9999-12-31T23:00:00-01:00\<close> denotes.
\<close>

definition far_future_host :: host where
  "far_future_host =
     example_host\<lparr>fm := (\<lambda>s. Some (no_attributes\<lparr>a_date := Timestamp 253402300800000\<rparr>, s))\<rparr>"

section \<open>The post renderer\<close>

subsection \<open>The home page (\<^verbatim>\<open>App.tsx\<close>)\<close>

text \<open>An entry as the interface \<^verbatim>\<open>BlogMeta\<close> of the page declares it.\<close>

record BlogMeta =
  m_title :: string
  m_date :: string
  m_slug :: string
  m_tags :: "string list"

text \<open>
  \<^verbatim>\<open>manifest.posts\<close>: reading a property of \<^verbatim>\<open>null\<close> throws, an object gives the
  value under the key (a \<open>DocObj\<close> lists each key once), and any other value has no
  property of that name.
\<close>

fun posts_prop :: "'e doc \<Rightarrow> error + 'e doc option" where
  "posts_prop DocNull = Inl TypeError"
| "posts_prop (DocObj kvs) = Inr (map_of kvs ''posts'')"
| "posts_prop d = Inr None"

text \<open>
  \<^verbatim>\<open>.sort((a, b) => ...).slice(0, 3)\<close> on that value: only an array has the method;
  calling it on anything else, \<^verbatim>\<open>undefined\<close> included, throws.
\<close>

fun sort_slice :: "(string \<Rightarrow> int option) \<Rightarrow> BlogMeta doc option \<Rightarrow> error + BlogMeta list" where
  "sort_slice parse (Some (DocArr xs)) = Inr (take 3 (sort_by (comparefn parse m_date) xs))"
| "sort_slice parse v = Inl TypeError"

text \<open>
  The body of the \<^verbatim>\<open>try\<close> block of \<^verbatim>\<open>fetchPosts\<close>; the response is \<open>None\<close> when
  \<^verbatim>\<open>fetch\<close> or \<^verbatim>\<open>res.json()\<close> rejects.
\<close>

definition try_fetchPosts :: "(string \<Rightarrow> int option) \<Rightarrow> BlogMeta doc option \<Rightarrow> error + BlogMeta list" where
  "try_fetchPosts parse response =
     (case response of
        None \<Rightarrow> Inl NetworkError
      | Some manifest \<Rightarrow>
          (case posts_prop manifest of
             Inl e \<Rightarrow> Inl e
           | Inr v \<Rightarrow> sort_slice parse v))"

text \<open>
  \<^verbatim>\<open>fetchPosts\<close>: the state \<^verbatim>\<open>recentPosts\<close> afterwards. The \<^verbatim>\<open>catch\<close> logs the error
  and leaves the state as it was.
\<close>

definition fetchPosts :: "(string \<Rightarrow> int option) \<Rightarrow> BlogMeta doc option \<Rightarrow> BlogMeta list \<Rightarrow> BlogMeta list" where
  "fetchPosts parse response recentPosts =
     (case try_fetchPosts parse response of Inl e \<Rightarrow> recentPosts | Inr ps \<Rightarrow> ps)"

subsection \<open>The list of posts (\<^verbatim>\<open>BlogList.tsx\<close>)\<close>

text \<open>
  The manifest arrives as JSON and nothing checks it against the interface
  \<^verbatim>\<open>BlogPost\<close> that the component declares, so an entry is whatever value the array
  holds, and its \<^verbatim>\<open>tags\<close> whatever the builder passed on.

  \<^verbatim>\<open>loadLocalPosts\<close>: the state \<^verbatim>\<open>posts\<close> afterwards. Nothing catches a rejection, and
  the state then stays as it was.
\<close>

definition loadLocalPosts :: "jsval doc option \<Rightarrow> jsval doc \<Rightarrow> jsval doc" where
  "loadLocalPosts response posts_state =
     (case response of None \<Rightarrow> posts_state | Some manifest \<Rightarrow> manifest)"

text \<open>
  \<^verbatim>\<open>post.tags\<close>: reading a property of \<^verbatim>\<open>null\<close> or \<^verbatim>\<open>undefined\<close> throws, an object
  gives the value under the key (an \<open>Obj\<close> lists each key once) or \<^verbatim>\<open>undefined\<close>, and
  no other value has a property of that name.
\<close>

fun tags_of :: "jsval \<Rightarrow> error + jsval" where
  "tags_of Undefined = Inl TypeError"
| "tags_of Null = Inl TypeError"
| "tags_of (Obj kvs) = Inr (case map_of kvs ''tags'' of None \<Rightarrow> Undefined | Some v \<Rightarrow> v)"
| "tags_of v = Inr Undefined"

text \<open>\<^verbatim>\<open>String.prototype.includes\<close>: whether the second text occurs anywhere in the first.\<close>

fun includes_text :: "string \<Rightarrow> string \<Rightarrow> bool" where
  "includes_text [] t = (t = [])"
| "includes_text (c # cs) t = (take (length t) (c # cs) = t \<or> includes_text cs t)"

text \<open>
  \<^verbatim>\<open>v?.includes(tag)\<close>: \<^verbatim>\<open>undefined\<close>, which is falsy, when \<open>v\<close> is \<^verbatim>\<open>undefined\<close> or
  \<^verbatim>\<open>null\<close>; on an array, whether the tag is one of its elements; on a string, whether the
  tag occurs in it; any other value has no such method, and the call throws.
\<close>

fun includes_tag :: "jsval \<Rightarrow> string \<Rightarrow> error + bool" where
  "includes_tag Undefined t = Inr False"
| "includes_tag Null t = Inr False"
| "includes_tag (Arr xs) t = Inr (Str t \<in> set xs)"
| "includes_tag (Str s) t = Inr (includes_text s t)"
| "includes_tag v t = Inl TypeError"

text \<open>\<^verbatim>\<open>Array.prototype.filter\<close> with a callback that may throw.\<close>

fun filter_result :: "('a \<Rightarrow> error + bool) \<Rightarrow> 'a list \<Rightarrow> error + 'a list" where
  "filter_result f [] = Inr []"
| "filter_result f (x # xs) =
     (case f x of
        Inl e \<Rightarrow> Inl e
      | Inr keep \<Rightarrow>
          (case filter_result f xs of
             Inl e \<Rightarrow> Inl e
           | Inr ys \<Rightarrow> Inr (if keep then x # ys else ys)))"

text \<open>
  The variable \<^verbatim>\<open>filteredPosts\<close> (line 30):
  \<^verbatim>\<open>tag ? posts.filter(post => post.tags?.includes(tag)) : posts\<close>. The route parameter
  is absent on \<^verbatim>\<open>/blog\<close>; on \<^verbatim>\<open>/blog/tag/:tag\<close> it is the segment, which is never empty.
\<close>

definition filteredPosts :: "string option \<Rightarrow> jsval list \<Rightarrow> error + jsval list" where
  "filteredPosts tag ps =
     (case tag of
        None \<Rightarrow> Inr ps
      | Some t \<Rightarrow>
          (if t = [] then Inr ps
           else filter_result
                  (\<lambda>post. case tags_of post of Inl e \<Rightarrow> Inl e | Inr v \<Rightarrow> includes_tag v t) ps))"

text \<open>
  The callback of \<^verbatim>\<open>flatMap\<close> (line 27), \<^verbatim>\<open>post => post.tags || []\<close>, with what
  \<^verbatim>\<open>flatMap\<close> makes of its result: an array is spread into its elements, any other truthy
  value stands as one element.
\<close>

definition tags_or_none :: "jsval \<Rightarrow> error + jsval list" where
  "tags_or_none post =
     (case tags_of post of
        Inl e \<Rightarrow> Inl e
      | Inr v \<Rightarrow> Inr (if truthy v then (case v of Arr ts \<Rightarrow> ts | _ \<Rightarrow> [v]) else []))"

text \<open>
  \<^verbatim>\<open>Array.from(new Set(xs))\<close>: each value where it first occurs. Strings, numbers,
  booleans and \<^verbatim>\<open>null\<close> are the same value when they are equal; every array and object
  of a parsed document is a value of its own.
\<close>

fun is_primitive :: "jsval \<Rightarrow> bool" where
  "is_primitive (Arr xs) = False"
| "is_primitive (Obj kvs) = False"
| "is_primitive v = True"

definition set_add :: "jsval list \<Rightarrow> jsval \<Rightarrow> jsval list" where
  "set_add seen x = (if is_primitive x \<and> x \<in> set seen then seen else seen @ [x])"

definition dedup :: "jsval list \<Rightarrow> jsval list" where
  "dedup xs = foldl set_add [] xs"

definition allTags :: "jsval list \<Rightarrow> error + jsval list" where
  "allTags ps =
     (case map_result tags_or_none ps of
        Inl e \<Rightarrow> Inl e
      | Inr tss \<Rightarrow> Inr (dedup (concat tss)))"

text \<open>
  What a render of the component computes before it draws: the tags it links and the
  entries it lists. \<^verbatim>\<open>flatMap\<close> and \<^verbatim>\<open>filter\<close> are methods of arrays only, so a state
  that is not an array throws. How React draws each tag and entry is not modelled.
\<close>

record list_view =
  tag_links :: "jsval list"
  list_items :: "jsval list"

fun BlogList :: "string option \<Rightarrow> jsval doc \<Rightarrow> error + list_view" where
  "BlogList tag (DocArr ps) =
     (case allTags ps of
        Inl e \<Rightarrow> Inl e
      | Inr ts \<Rightarrow>
          (case filteredPosts tag ps of
             Inl e \<Rightarrow> Inl e
           | Inr shown \<Rightarrow> Inr \<lparr>tag_links = ts, list_items = shown\<rparr>))"
| "BlogList tag d = Inl TypeError"

text \<open>
  The tags of an entry as the data model has them: the elements of its array of tags,
  none when the entry has no tags.
\<close>

fun tags_in_array :: "jsval \<Rightarrow> bool" where
  "tags_in_array (Obj kvs) =
     (case map_of kvs ''tags'' of None \<Rightarrow> True | Some (Arr ts) \<Rightarrow> True | Some v \<Rightarrow> False)"
| "tags_in_array v = False"

fun entry_tags :: "jsval \<Rightarrow> jsval list" where
  "entry_tags (Obj kvs) = (case map_of kvs ''tags'' of Some (Arr ts) \<Rightarrow> ts | _ \<Rightarrow> [])"
| "entry_tags v = []"

subsection \<open>A single post (\<^verbatim>\<open>BlogPost.tsx\<close>)\<close>

text \<open>
  The browser as the component sees it: \<^verbatim>\<open>fetch\<close> with \<^verbatim>\<open>res.text()\<close> (\<open>None\<close> where
  a promise rejects, which \<^verbatim>\<open>fetch\<close> does on a network error and not on an HTTP error
  status) and the \<^verbatim>\<open>front-matter\<close> package. The component never reads the status of a
  response.
\<close>

record response =
  status :: nat
  body_text :: string

record browser =
  fetch :: "string \<Rightarrow> response option"
  frontMatter :: "string \<Rightarrow> (attributes \<times> string) option"

text \<open>
  The type assertion on the parsed attributes is unchecked, so the fields of a post
  hold whatever the loader produced.
\<close>

record Post =
  p_title :: attr
  p_date :: attr
  p_content :: string

text \<open>
  The address of the file of a slug in the earlier revision; the later one passes
  \<^verbatim>\<open>src/posts/<slug>.md\<close> through \<^verbatim>\<open>resolveAsset\<close> and is otherwise the same.
\<close>

definition post_url :: "string \<Rightarrow> string" where
  "post_url sl = ''/the-orchestration-layer/src/posts/'' @ sl @ ''.md''"

text \<open>
  \<^verbatim>\<open>fetchPost\<close> up to its \<^verbatim>\<open>setPost\<close>: fetch the file, read its text, split it with
  \<^verbatim>\<open>frontMatter\<close>, and build the post from \<^verbatim>\<open>attributes.title\<close>,
  \<^verbatim>\<open>attributes.date\<close> and \<^verbatim>\<open>body\<close>.
\<close>

definition fetchPost :: "browser \<Rightarrow> string \<Rightarrow> error + Post" where
  "fetchPost w sl =
     (case fetch w (post_url sl) of
        None \<Rightarrow> Inl NetworkError
      | Some res \<Rightarrow>
          (case frontMatter w (body_text res) of
             None \<Rightarrow> Inl YAMLException
           | Some (attrs, body) \<Rightarrow>
               Inr \<lparr>p_title = a_title attrs, p_date = a_date attrs, p_content = body\<rparr>))"

text \<open>
  The state \<^verbatim>\<open>post\<close> once the effect has run: it starts as \<^verbatim>\<open>null\<close>, and
  \<^verbatim>\<open>setPost\<close> is the last statement of \<^verbatim>\<open>fetchPost\<close>, whose rejection nobody handles.
\<close>

definition post_state :: "browser \<Rightarrow> string \<Rightarrow> Post option" where
  "post_state w sl = (case fetchPost w sl of Inl e \<Rightarrow> None | Inr p \<Rightarrow> Some p)"

text \<open>What the component renders: \<^verbatim>\<open>Loading...\<close> while the state is \<^verbatim>\<open>null\<close>, else the post.\<close>

datatype post_view = Loading | Article Post

definition BlogPost_view :: "Post option \<Rightarrow> post_view" where
  "BlogPost_view post = (case post of None \<Rightarrow> Loading | Some p \<Rightarrow> Article p)"

subsection \<open>Code blocks (the \<^verbatim>\<open>code\<close> component of the later \<^verbatim>\<open>BlogPost.tsx\<close>)\<close>

text \<open>\<^verbatim>\<open>\w\<close>: a letter, a digit or the underscore.\<close>

definition word_char :: "char \<Rightarrow> bool" where
  "word_char c =
     (let n = (of_char c :: nat)
      in (48 \<le> n \<and> n \<le> 57) \<or> (65 \<le> n \<and> n \<le> 90) \<or> n = 95 \<or> (97 \<le> n \<and> n \<le> 122))"

text \<open>
  \<^verbatim>\<open>/language-(\w+)/.exec(s)\<close>, giving the captured group: the match at the leftmost
  position where \<^verbatim>\<open>language-\<close> is followed by a word character, with the longest run of
  word characters there.
\<close>

definition match_here :: "string \<Rightarrow> string option" where
  "match_here s =
     (if take 9 s = ''language-'' then
        (let w = takeWhile word_char (drop 9 s) in if w = [] then None else Some w)
      else None)"

fun exec_language :: "string \<Rightarrow> string option" where
  "exec_language [] = None"
| "exec_language (c # cs) =
     (case match_here (c # cs) of Some w \<Rightarrow> Some w | None \<Rightarrow> exec_language cs)"

text \<open>\<^verbatim>\<open>String(children).replace(/\n$/, '')\<close>.\<close>

definition chomp :: "string \<Rightarrow> string" where
  "chomp s = (if s \<noteq> [] \<and> last s = newline then butlast s else s)"

datatype code_view =
    SyntaxHighlighter string string
  | PlainCode "string option" string

text \<open>
  The \<^verbatim>\<open>code\<close> component on a class name (absent for a block without an info string)
  and its text: the highlighter with its language and text, or a plain \<^verbatim>\<open>code\<close>
  element with the class name and text unchanged.
\<close>

definition code :: "string option \<Rightarrow> string \<Rightarrow> code_view" where
  "code className children =
     (case exec_language (case className of None \<Rightarrow> [] | Some c \<Rightarrow> c) of
        Some lang \<Rightarrow> SyntaxHighlighter lang (chomp children)
      | None \<Rightarrow> PlainCode className children)"

subsection \<open>A post file and a browser to load it in\<close>

definition x_md :: string where
  "x_md = ''---'' @ [newline] @ ''title: X'' @ [newline]
          @ ''date: '' @ [CHR 0x22] @ ''2025-01-02'' @ [CHR 0x22] @ [newline]
          @ ''slug: x'' @ [newline] @ ''---'' @ [newline] @ ''Hello''"

definition x_attributes :: attributes where
  "x_attributes =
     \<lparr>a_title = Plain (Str ''X''), a_date = Plain (Str ''2025-01-02''),
      a_slug = Plain (Str ''x''), a_tags = Plain Undefined\<rparr>"

text \<open>
  A site that serves \<^verbatim>\<open>x.md\<close> and answers every other path with status 404 and a
  short page, as a static file server does.
\<close>

definition example_browser :: browser where
  "example_browser =
     \<lparr>fetch = (\<lambda>url. if url = post_url ''x'' then Some \<lparr>status = 200, body_text = x_md\<rparr>
                       else Some \<lparr>status = 404, body_text = ''Not Found''\<rparr>),
      frontMatter = (\<lambda>s. if s = x_md then Some (x_attributes, ''Hello'') else Some (no_attributes, s))\<rparr>"

text \<open>The same site while the network is down.\<close>

definition offline_browser :: browser where
  "offline_browser = example_browser\<lparr>fetch := (\<lambda>url. None)\<rparr>"

text \<open>An entry of a manifest, as the builder writes it, with the given tags.\<close>

definition tagged_post :: "string \<Rightarrow> jsval \<Rightarrow> jsval" where
  "tagged_post s ts =
     Obj [(''title'', Str s), (''date'', Str ''2025-01-01''), (''slug'', Str s),
          (''filename'', Str (s @ ''.md'')), (''tags'', ts)]"

subsection \<open>The front-matter of a post file\<close>
















text \<open>
  One reading of a builder entry through the \<^verbatim>\<open>BlogMeta\<close> interface of the home page:
  a text as it is, a \<^verbatim>\<open>Date\<close> as its ISO string (what JSON makes of it), another value
  as \<^verbatim>\<open>String\<close> prints it.
\<close>

definition attr_text :: "attr \<Rightarrow> string" where
  "attr_text a =
     (case a of
        Plain v \<Rightarrow> String_js v
      | Timestamp t \<Rightarrow> (case toISOString t of Inl e \<Rightarrow> [] | Inr s \<Rightarrow> s))"

definition attr_texts :: "attr \<Rightarrow> string list" where
  "attr_texts a = (case a of Plain (Arr xs) \<Rightarrow> map String_js xs | _ \<Rightarrow> [])"

definition as_meta :: "('d \<Rightarrow> string) \<Rightarrow> 'd PostMetadata \<Rightarrow> BlogMeta" where
  "as_meta dt p =
     \<lparr>m_title = attr_text (title p), m_date = dt (date p), m_slug = attr_text (slug p),
      m_tags = attr_texts (tags p)\<rparr>"

section \<open>Properties of the builder\<close>

lemma map_result_all2:
  "map_result f xs = Inr ys \<Longrightarrow> list_all2 (\<lambda>x y. f x = Inr y) xs ys"
  by (induction xs arbitrary: ys) (auto split: sum.splits)

lemma post_of_filename: "post_of h n = Inr p \<Longrightarrow> filename p = n"
  by (auto simp: post_of_def split: option.splits sum.splits prod.splits)

lemma post_of0_filename: "post_of0 h n = Inr p \<Longrightarrow> filename p = n"
  by (auto simp: post_of0_def split: option.splits sum.splits prod.splits)

lemma all2_filename:
  "list_all2 (\<lambda>x y. f x = Inr y) xs ys \<Longrightarrow> (\<And>x y. f x = Inr y \<Longrightarrow> filename y = x) \<Longrightarrow> map filename ys = xs"
  by (induction rule: list_all2_induct) auto

text \<open>The sort permutes its argument, whatever the comparator answers.\<close>

lemma mset_extend_run:
  "extend_run c d prev xs = (run, rest) \<Longrightarrow> mset run + mset rest = mset xs"
proof (induction xs arbitrary: prev run rest)
  case Nil
  then show ?case by simp
next
  case (Cons x xs)
  show ?case
  proof (cases "if d then c x prev \<ge> 0 else c x prev < 0")
    case True
    then have "run = []" "rest = x # xs" using Cons.prems by (auto split: if_splits)
    then show ?thesis by simp
  next
    case False
    obtain run' rest' where r: "extend_run c d x xs = (run', rest')" by (cases "extend_run c d x xs")
    then have "run = x # run'" "rest = rest'" using Cons.prems False by (auto split: if_splits)
    then show ?thesis using Cons.IH [OF r] by simp
  qed
qed

lemma mset_count_and_make_run:
  "count_and_make_run c xs = (run, rest) \<Longrightarrow> mset run + mset rest = mset xs"
proof (induction c xs rule: count_and_make_run.induct)
  case (3 c x0 x1 xs)
  obtain run' rest' where r: "extend_run c (c x1 x0 < 0) x1 xs = (run', rest')"
    by (cases "extend_run c (c x1 x0 < 0) x1 xs")
  from mset_extend_run [OF r] have m: "mset run' + mset rest' = mset xs" .
  from "3.prems" r have "rest = rest'" and "mset run = mset (x0 # x1 # run')"
    by (auto simp: Let_def split: if_splits)
  then show ?case using m by simp
qed simp_all

lemma mset_binary_insertion: "mset (binary_insertion c ys x) = add_mset x (mset ys)"
proof -
  have "mset (take i ys) + mset (drop i ys) = mset ys" for i
    by (metis append_take_drop_id mset_append)
  then show ?thesis by (simp add: binary_insertion_def Let_def)
qed

lemma mset_foldl_binary_insertion:
  "mset (foldl (binary_insertion c) acc xs) = mset acc + mset xs"
  by (induction xs arbitrary: acc) (simp_all add: mset_binary_insertion)

lemma mset_sort_by: "mset (sort_by cmp xs) = mset xs"
proof -
  obtain run rest where r: "count_and_make_run (SortCompare cmp) xs = (run, rest)"
    by (cases "count_and_make_run (SortCompare cmp) xs")
  then show ?thesis
    using mset_count_and_make_run [OF r] by (simp add: sort_by_def mset_foldl_binary_insertion)
qed

lemma extend_run_ascending:
  assumes "extend_run c False prev xs = (run, rest)"
    and "\<And>a b. a \<in> insert prev (set xs) \<Longrightarrow> b \<in> insert prev (set xs) \<Longrightarrow> c a b = key b - key a"
  shows "sorted_wrt (\<lambda>a b. (key b :: int) \<le> key a) (prev # run)"
  using assms
proof (induction xs arbitrary: prev run rest)
  case Nil
  then show ?case by simp
next
  case (Cons x xs)
  show ?case
  proof (cases "c x prev < 0")
    case True
    then show ?thesis using Cons.prems(1) by simp
  next
    case False
    obtain run' rest' where r: "extend_run c False x xs = (run', rest')"
      by (cases "extend_run c False x xs")
    then have run: "run = x # run'" using Cons.prems(1) False by simp
    have "c x prev = key prev - key x" using Cons.prems(2) by simp
    then have le: "key x \<le> key prev" using False by simp
    have ih: "sorted_wrt (\<lambda>a b. key b \<le> key a) (x # run')"
    proof (rule Cons.IH [OF r])
      show "\<And>a b. a \<in> insert x (set xs) \<Longrightarrow> b \<in> insert x (set xs) \<Longrightarrow> c a b = key b - key a"
        using Cons.prems(2) by auto
    qed
    then have "\<forall>y \<in> set run'. key y \<le> key x" by simp
    then have "\<forall>y \<in> set (x # run'). key y \<le> key prev" using le by auto
    then show ?thesis using ih run by simp
  qed
qed

lemma extend_run_descending:
  assumes "extend_run c True prev xs = (run, rest)"
    and "\<And>a b. a \<in> insert prev (set xs) \<Longrightarrow> b \<in> insert prev (set xs) \<Longrightarrow> c a b = key b - key a"
  shows "sorted_wrt (\<lambda>a b. (key a :: int) < key b) (prev # run)"
  using assms
proof (induction xs arbitrary: prev run rest)
  case Nil
  then show ?case by simp
next
  case (Cons x xs)
  show ?case
  proof (cases "c x prev \<ge> 0")
    case True
    then show ?thesis using Cons.prems(1) by simp
  next
    case False
    obtain run' rest' where r: "extend_run c True x xs = (run', rest')"
      by (cases "extend_run c True x xs")
    then have run: "run = x # run'" using Cons.prems(1) False by simp
    have "c x prev = key prev - key x" using Cons.prems(2) by simp
    then have le: "key prev < key x" using False by simp
    have ih: "sorted_wrt (\<lambda>a b. key a < key b) (x # run')"
    proof (rule Cons.IH [OF r])
      show "\<And>a b. a \<in> insert x (set xs) \<Longrightarrow> b \<in> insert x (set xs) \<Longrightarrow> c a b = key b - key a"
        using Cons.prems(2) by auto
    qed
    then have "\<forall>y \<in> set run'. key x < key y" by simp
    then have "\<forall>y \<in> set (x # run'). key prev < key y" using le by auto
    then show ?thesis using ih run by simp
  qed
qed

lemma sorted_count_and_make_run:
  assumes "count_and_make_run c xs = (run, rest)"
    and "\<And>a b. a \<in> set xs \<Longrightarrow> b \<in> set xs \<Longrightarrow> c a b = key b - key a"
  shows "sorted_wrt (\<lambda>a b. (key b :: int) \<le> key a) run"
  using assms
proof (induction c xs rule: count_and_make_run.induct)
  case (3 c x0 x1 xs)
  obtain run' rest' where r: "extend_run c (c x1 x0 < 0) x1 xs = (run', rest')"
    by (cases "extend_run c (c x1 x0 < 0) x1 xs")
  have c10: "c x1 x0 = key x0 - key x1" using "3.prems"(2) by simp
  have cons: "\<And>a b. a \<in> insert x1 (set xs) \<Longrightarrow> b \<in> insert x1 (set xs) \<Longrightarrow> c a b = key b - key a"
    using "3.prems"(2) by auto
  show ?case
  proof (cases "c x1 x0 < 0")
    case True
    then have run: "run = rev (x0 # x1 # run')" using "3.prems"(1) r by (simp add: Let_def)
    from True r have "extend_run c True x1 xs = (run', rest')" by simp
    then have s: "sorted_wrt (\<lambda>a b. key a < key b) (x1 # run')"
      using cons by (rule extend_run_descending)
    have "key x0 < key x1" using True c10 by simp
    moreover have "\<forall>y \<in> set run'. key x1 < key y" using s by simp
    ultimately have "sorted_wrt (\<lambda>a b. key a < key b) (x0 # x1 # run')" using s by auto
    then have "sorted_wrt (\<lambda>a b. key b < key a) (rev (x0 # x1 # run'))"
      by (simp only: sorted_wrt_rev)
    then have "sorted_wrt (\<lambda>a b. key b \<le> key a) (rev (x0 # x1 # run'))"
      by (rule sorted_wrt_mono_rel [rotated]) simp
    then show ?thesis using run by simp
  next
    case False
    then have run: "run = x0 # x1 # run'" using "3.prems"(1) r by (simp add: Let_def)
    from False r have "extend_run c False x1 xs = (run', rest')" by simp
    then have s: "sorted_wrt (\<lambda>a b. key b \<le> key a) (x1 # run')"
      using cons by (rule extend_run_ascending)
    have "key x1 \<le> key x0" using False c10 by simp
    moreover have "\<forall>y \<in> set run'. key y \<le> key x1" using s by simp
    ultimately have "sorted_wrt (\<lambda>a b. key b \<le> key a) (x0 # x1 # run')" using s by auto
    then show ?thesis using run by simp
  qed
qed auto

lemma insertion_point_splits:
  assumes "sorted_wrt (\<lambda>a b. (key b :: int) \<le> key a) xs"
    and "\<And>a. a \<in> set xs \<Longrightarrow> c pivot a = key a - key pivot"
  shows "insertion_point c pivot xs \<le> length xs
       \<and> (\<forall>a \<in> set (take (insertion_point c pivot xs) xs). key pivot \<le> key a)
       \<and> (\<forall>a \<in> set (drop (insertion_point c pivot xs) xs). key a < key pivot)"
  using assms
proof (induction c pivot xs rule: insertion_point.induct)
  case (1 c pivot xs)
  show ?case
  proof (cases "xs = []")
    case True
    then show ?thesis by (simp add: insertion_point.simps)
  next
    case False
    define mid where "mid = length xs div 2"
    have mid: "mid < length xs" using False by (simp add: mid_def)
    have xs: "xs = take mid xs @ (xs ! mid) # drop (Suc mid) xs"
      using mid by (simp add: id_take_nth_drop)
    have parts: "sorted_wrt (\<lambda>a b. key b \<le> key a) (take mid xs)"
      "sorted_wrt (\<lambda>a b. key b \<le> key a) (drop (Suc mid) xs)"
      "\<forall>a \<in> set (take mid xs). key (xs ! mid) \<le> key a"
      "\<forall>a \<in> set (drop (Suc mid) xs). key a \<le> key (xs ! mid)"
      using "1.prems"(1) xs by (metis sorted_wrt_append sorted_wrt.simps(2) list.set_intros(1))+
    have cm: "c pivot (xs ! mid) = key (xs ! mid) - key pivot"
      using "1.prems"(2) mid by simp
    show ?thesis
    proof (cases "c pivot (xs ! mid) < 0")
      case True
      let ?i = "insertion_point c pivot (take mid xs)"
      have ip: "insertion_point c pivot xs = ?i"
        using False True by (subst insertion_point.simps) (simp add: mid_def Let_def)
      have ih: "?i \<le> length (take mid xs)
          \<and> (\<forall>a \<in> set (take ?i (take mid xs)). key pivot \<le> key a)
          \<and> (\<forall>a \<in> set (drop ?i (take mid xs)). key a < key pivot)"
      proof (rule "1.IH"(1) [OF False mid_def])
        show "c pivot (xs ! mid) < 0" by (rule True)
        show "sorted_wrt (\<lambda>a b. key b \<le> key a) (take mid xs)" by (rule parts(1))
        show "\<And>a. a \<in> set (take mid xs) \<Longrightarrow> c pivot a = key a - key pivot"
          using "1.prems"(2) by (meson in_set_takeD)
      qed
      then have le: "?i \<le> mid" by simp
      have t: "take ?i xs = take ?i (take mid xs)" using le by (simp add: min_def)
      have "drop ?i xs = drop ?i (take mid xs @ drop mid xs)" by simp
      also have "\<dots> = drop ?i (take mid xs) @ drop mid xs"
        using le mid by (simp del: append_take_drop_id)
      also have "drop mid xs = (xs ! mid) # drop (Suc mid) xs"
        using mid by (simp add: Cons_nth_drop_Suc)
      finally have d: "drop ?i xs = drop ?i (take mid xs) @ (xs ! mid) # drop (Suc mid) xs" .
      have lo: "key (xs ! mid) < key pivot" using True cm by simp
      have "\<forall>a \<in> set ((xs ! mid) # drop (Suc mid) xs). key a < key pivot"
        using lo parts(4) by auto
      then show ?thesis unfolding ip t d using ih le mid by auto
    next
      case ge: False
      let ?j = "insertion_point c pivot (drop (Suc mid) xs)"
      have ip: "insertion_point c pivot xs = Suc mid + ?j"
        using False ge by (subst insertion_point.simps) (simp add: mid_def Let_def)
      have ih: "?j \<le> length (drop (Suc mid) xs)
          \<and> (\<forall>a \<in> set (take ?j (drop (Suc mid) xs)). key pivot \<le> key a)
          \<and> (\<forall>a \<in> set (drop ?j (drop (Suc mid) xs)). key a < key pivot)"
      proof (rule "1.IH"(2) [OF False mid_def])
        show "\<not> c pivot (xs ! mid) < 0" by (rule ge)
        show "sorted_wrt (\<lambda>a b. key b \<le> key a) (drop (Suc mid) xs)" by (rule parts(2))
        show "\<And>a. a \<in> set (drop (Suc mid) xs) \<Longrightarrow> c pivot a = key a - key pivot"
          using "1.prems"(2) by (meson in_set_dropD)
      qed
      have hi: "key pivot \<le> key (xs ! mid)" using ge cm by simp
      have t: "take (Suc mid + ?j) xs = take mid xs @ (xs ! mid) # take ?j (drop (Suc mid) xs)"
        using mid by (simp only: take_add take_Suc_conv_app_nth) simp
      have d: "drop (Suc mid + ?j) xs = drop ?j (drop (Suc mid) xs)"
        by (simp add: add.commute)
      have "\<forall>a \<in> set (take mid xs @ [xs ! mid]). key pivot \<le> key a"
        using hi parts(3) by auto
      then show ?thesis unfolding ip t d using ih mid by auto
    qed
  qed
qed

lemma sorted_binary_insertion:
  assumes "sorted_wrt (\<lambda>a b. (key b :: int) \<le> key a) ys"
    and "\<And>a. a \<in> set ys \<Longrightarrow> c x a = key a - key x"
  shows "sorted_wrt (\<lambda>a b. key b \<le> key a) (binary_insertion c ys x)"
proof -
  let ?i = "insertion_point c x ys"
  from insertion_point_splits [of key ys c x, OF assms]
  have before: "\<forall>a \<in> set (take ?i ys). key x \<le> key a"
    and after: "\<forall>a \<in> set (drop ?i ys). key a < key x" by simp_all
  have "sorted_wrt (\<lambda>a b. key b \<le> key a) (take ?i ys @ drop ?i ys)" using assms(1) by simp
  then have parts: "sorted_wrt (\<lambda>a b. key b \<le> key a) (take ?i ys)"
    "sorted_wrt (\<lambda>a b. key b \<le> key a) (drop ?i ys)"
    "\<forall>a \<in> set (take ?i ys). \<forall>b \<in> set (drop ?i ys). key b \<le> key a"
    unfolding sorted_wrt_append by simp_all
  have "sorted_wrt (\<lambda>a b. key b \<le> key a) (take ?i ys @ x # drop ?i ys)"
    unfolding sorted_wrt_append using parts before after by fastforce
  then show ?thesis by (simp add: binary_insertion_def Let_def)
qed

lemma set_binary_insertion: "set (binary_insertion c ys x) = insert x (set ys)"
  using mset_binary_insertion [of c ys x] by (metis set_mset_add_mset_insert set_mset_mset)

lemma sorted_foldl_binary_insertion:
  assumes "\<And>a b. a \<in> set acc \<union> set xs \<Longrightarrow> b \<in> set acc \<union> set xs \<Longrightarrow> c a b = key b - key a"
    and "sorted_wrt (\<lambda>a b. key b \<le> key a) acc"
  shows "sorted_wrt (\<lambda>a b. (key b :: int) \<le> key a) (foldl (binary_insertion c) acc xs)"
  using assms
proof (induction xs arbitrary: acc)
  case Nil
  then show ?case by simp
next
  case (Cons x xs)
  have s: "sorted_wrt (\<lambda>a b. key b \<le> key a) (binary_insertion c acc x)"
    by (rule sorted_binary_insertion [OF Cons.prems(2)]) (use Cons.prems(1) in auto)
  show ?case
    using Cons.IH [OF _ s] Cons.prems(1) by (simp add: set_binary_insertion)
qed

text \<open>
  Where the comparator is the difference of a key, as it is among entries whose dates
  all parse, the sort leaves the keys in descending order.
\<close>

lemma sorted_sort_by_key:
  assumes "\<And>a b. a \<in> set xs \<Longrightarrow> b \<in> set xs \<Longrightarrow> SortCompare cmp a b = key b - key a"
  shows "sorted_wrt (\<lambda>a b. (key b :: int) \<le> key a) (sort_by cmp xs)"
proof -
  obtain run rest where r: "count_and_make_run (SortCompare cmp) xs = (run, rest)"
    by (cases "count_and_make_run (SortCompare cmp) xs")
  have "set_mset (mset run + mset rest) = set_mset (mset xs)"
    using mset_count_and_make_run [OF r] by simp
  then have sets: "set run \<union> set rest = set xs" by simp
  have s: "sorted_wrt (\<lambda>a b. key b \<le> key a) run"
    using r assms by (rule sorted_count_and_make_run)
  have "sorted_wrt (\<lambda>a b. key b \<le> key a) (foldl (binary_insertion (SortCompare cmp)) run rest)"
  proof (rule sorted_foldl_binary_insertion [OF _ s])
    show "\<And>a b. a \<in> set run \<union> set rest \<Longrightarrow> b \<in> set run \<union> set rest
           \<Longrightarrow> SortCompare cmp a b = key b - key a"
      unfolding sets by (rule assms)
  qed
  then show ?thesis by (simp add: sort_by_def r)
qed

lemma SortCompare_comparefn:
  assumes "parse (dt a) = Some ta" and "parse (dt b) = Some tb"
  shows "SortCompare (comparefn parse dt) a b = tb - ta"
  using assms by (simp add: SortCompare_def comparefn_def)

lemma written_finish: "written (finish pth ps) = Some (DocArr ps)"
  by (simp add: finish_def)

lemma written_abort: "written (abort e) = None"
  by (simp add: abort_def)

lemma generate_manifest_written:
  "written (generate_manifest h) = Some d \<longleftrightarrow> (\<exists>ps. posts h = Inr ps \<and> d = DocArr ps)"
  by (auto simp: generate_manifest_def written_finish written_abort split: sum.splits)

lemma generate_manifest0_written:
  "written (generate_manifest0 h) = Some d \<longleftrightarrow> (\<exists>ps. posts0 h = Inr ps \<and> d = DocArr ps)"
  by (auto simp: generate_manifest0_def written_finish written_abort split: sum.splits)

lemma posts_Inr:
  assumes "posts h = Inr out"
  obtains names ps where "readdirSync h = Some names"
    and "map_result (post_of h) (filter (\<lambda>f. endsWith f ''.md'') names) = Inr ps"
    and "out = sort_by (comparefn (Date_parse h) date) ps"
  using assms by (auto simp: posts_def files_def split: option.splits sum.splits)

lemma posts0_Inr:
  assumes "posts0 h = Inr out"
  obtains names where "readdirSync h = Some names"
    and "map_result (post_of0 h) (filter (\<lambda>f. endsWith f ''.md'') names) = Inr out"
  using assms by (auto simp: posts0_def files_def split: option.splits sum.splits)

subsection \<open>C1: the manifest is sorted by date, newest first\<close>

text \<open>
  The sorting revision orders the entries with the comparator
  \<^verbatim>\<open>new Date(b.date) - new Date(a.date)\<close> (line 33, under the comment ``Sort posts by
  date in descending order (newest first)''). Where the date of every entry parses,
  the manifest is in that order: the parsed date of each entry is greater than or equal
  to the parsed date of the entry after it.
\<close>

theorem manifest_sorted_when_dates_parse:
  assumes wr: "written (generate_manifest h) = Some (DocArr out)"
    and ok: "\<forall>p \<in> set out. Date_parse h (date p) \<noteq> None"
  shows "\<forall>i. Suc i < length out \<longrightarrow>
           date_ge (Date_parse h) (date (out ! i)) (date (out ! Suc i))"
proof -
  define key where "key = (\<lambda>p :: string PostMetadata. the (Date_parse h (date p)))"
  from wr have "posts h = Inr out" by (simp add: generate_manifest_written)
  then obtain names ps where out: "out = sort_by (comparefn (Date_parse h) date) ps"
    by (rule posts_Inr)
  have set_eq: "set ps = set out"
    using mset_sort_by [of "comparefn (Date_parse h) date" ps] out
    by (metis set_mset_mset)
  have cmp: "SortCompare (comparefn (Date_parse h) date) a b = key b - key a"
    if "a \<in> set ps" "b \<in> set ps" for a b
  proof -
    from that ok set_eq have "Date_parse h (date a) \<noteq> None" "Date_parse h (date b) \<noteq> None"
      by blast+
    then obtain ta tb where "Date_parse h (date a) = Some ta"
      "Date_parse h (date b) = Some tb" by blast
    then show ?thesis by (simp add: SortCompare_comparefn key_def)
  qed
  have sorted: "sorted_wrt (\<lambda>a b. key b \<le> key a) out"
    unfolding out by (rule sorted_sort_by_key) (rule cmp)
  show ?thesis
  proof (intro allI impI)
    fix i assume i: "Suc i < length out"
    then have le: "key (out ! Suc i) \<le> key (out ! i)"
      using sorted by (simp add: sorted_wrt_iff_nth_less)
    from i ok obtain x y where "Date_parse h (date (out ! i)) = Some x"
      "Date_parse h (date (out ! Suc i)) = Some y"
      by (metis Suc_lessD nth_mem option.exhaust)
    then show "date_ge (Date_parse h) (date (out ! i)) (date (out ! Suc i))"
      using le by (simp add: date_ge_def key_def)
  qed
qed

lemma example_manifest:
  "generate_manifest example_host = finish (manifestPath example_host) [entry_b, entry_a, entry_c]"
  by code_simp

theorem manifest_sorted_witness:
  "written (generate_manifest (example_host\<lparr>readdirSync := Some [''a.md'', ''b.md'']\<rparr>))
     = Some (DocArr [entry_b, entry_a])
   \<and> date_ge iso_date_parse (date entry_b) (date entry_a)"
proof -
  let ?h = "example_host\<lparr>readdirSync := Some [''a.md'', ''b.md'']\<rparr>"
  have run: "generate_manifest ?h = finish (manifestPath ?h) [entry_b, entry_a]" by code_simp
  have wr: "written (generate_manifest ?h) = Some (DocArr [entry_b, entry_a])"
    by (simp add: run written_finish)
  have pa: "Date_parse ?h (date entry_a) \<noteq> None" by code_simp
  have pb: "Date_parse ?h (date entry_b) \<noteq> None" by code_simp
  have ok: "\<forall>p \<in> set [entry_b, entry_a]. Date_parse ?h (date p) \<noteq> None"
    using pa pb by simp
  have dp: "Date_parse ?h = iso_date_parse" by (simp add: example_host_def)
  from manifest_sorted_when_dates_parse [OF wr ok]
  have "date_ge (Date_parse ?h) (date ([entry_b, entry_a] ! 0)) (date ([entry_b, entry_a] ! Suc 0))"
    by simp
  then show ?thesis using wr dp by simp
qed

text \<open>
  C1: the manifest is sorted by date, newest first. The script does not keep to this
  once a file has no date. Its entry gets the date \<^verbatim>\<open>''\<close>, which does not parse, the
  comparator answers \<^verbatim>\<open>NaN\<close> whenever that entry is compared, and the sort takes the
  entries for equal. In a directory of \<^verbatim>\<open>a.md\<close> dated 2025-01-01, \<^verbatim>\<open>b.md\<close> without
  front-matter and \<^verbatim>\<open>c.md\<close> dated 2025-06-01, no comparison of the sort is between
  \<^verbatim>\<open>a.md\<close> and \<^verbatim>\<open>c.md\<close>, and the manifest lists the three in the order of the
  directory: the entry of June, the newest, is the last, after the entry of January.
\<close>

theorem newest_entry_written_last:
  "written (generate_manifest undated_second_host) = Some (DocArr [entry_a, undated_b, june_c])
   \<and> Date_parse undated_second_host (date entry_a) = Some 1735689600000
   \<and> Date_parse undated_second_host (date undated_b) = None
   \<and> Date_parse undated_second_host (date june_c) = Some 1748736000000
   \<and> \<not> date_ge (Date_parse undated_second_host) (date entry_a) (date june_c)"
proof -
  have run: "generate_manifest undated_second_host
               = finish (manifestPath undated_second_host) [entry_a, undated_b, june_c]"
    by code_simp
  have a: "Date_parse undated_second_host (date entry_a) = Some 1735689600000" by code_simp
  have b: "Date_parse undated_second_host (date undated_b) = None" by code_simp
  have c: "Date_parse undated_second_host (date june_c) = Some 1748736000000" by code_simp
  have "\<not> date_ge (Date_parse undated_second_host) (date entry_a) (date june_c)"
    by (simp add: date_ge_def a c)
  then show ?thesis using a b c by (simp add: run written_finish)
qed

text \<open>
  With the undated file last in the directory the two dated entries are compared and
  come out newest first, and the undated entry stays where it was, at the end.
\<close>

lemma undated_entry_last:
  "written (generate_manifest example_host) = Some (DocArr [entry_b, entry_a, entry_c])
   \<and> Date_parse example_host (date entry_c) = None"
proof -
  have "Date_parse example_host (date entry_c) = None" by code_simp
  then show ?thesis by (simp add: example_manifest written_finish)
qed

text \<open>The revision without a sort writes the entries of the same directory in its order.\<close>

lemma example_manifest0_order:
  "map filename (case written (generate_manifest0 example_host) of Some (DocArr ps) \<Rightarrow> ps | _ \<Rightarrow> [])
     = [''a.md'', ''b.md'', ''c.md'']"
  by code_simp

subsection \<open>C2: date normalisation\<close>

lemma take10_iso:
  "take 10 (four_digits y @ ''-'' @ two_digits m @ ''-'' @ two_digits d @ rest)
     = four_digits y @ ''-'' @ two_digits m @ ''-'' @ two_digits d"
  by (simp add: four_digits_def two_digits_def)

text \<open>A date whose year has four digits is a valid one.\<close>

lemma yoe_bounds:
  fixes doe :: int
  assumes "0 \<le> doe" and "doe < 146097"
  shows "0 \<le> (doe - doe div 1460 + doe div 36524 - doe div 146096) div 365
       \<and> (doe - doe div 1460 + doe div 36524 - doe div 146096) div 365 \<le> 400"
  using assms by linarith

lemma year_of_era:
  "400 * ((z + 719468) div 146097) \<le> fst (civil_from_days z)
   \<and> fst (civil_from_days z) \<le> 400 * ((z + 719468) div 146097) + 401"
proof -
  define doe where "doe = (z + 719468) mod 146097"
  have d: "0 \<le> doe" "doe < 146097" by (simp_all add: doe_def)
  show ?thesis
    unfolding civil_from_days_def Let_def fst_conv doe_def [symmetric]
    using yoe_bounds [OF d] by (auto split: if_splits)
qed

lemma valid_of_year:
  assumes "0 \<le> year_of t" and "year_of t \<le> 9999"
  shows "abs t \<le> 8640000000000000"
proof -
  define z where "z = t div 86400000"
  have y: "year_of t = fst (civil_from_days z)" by (simp add: year_of_def msPerDay_def z_def)
  from year_of_era [of z] assms y
  have "400 * ((z + 719468) div 146097) \<le> 9999" "0 \<le> 400 * ((z + 719468) div 146097) + 401"
    by linarith+
  then have "(z + 719468) div 146097 \<le> 24" "- 2 < (z + 719468) div 146097" by linarith+
  then have "z \<le> 4000000" "- 2000000 \<le> z" by linarith+
  then show ?thesis unfolding z_def by linarith
qed

lemma civil_from_days_examples:
  "civil_from_days 0 = (1970, 1, 1)"
  "civil_from_days (- 1) = (1969, 12, 31)"
  "civil_from_days 19782 = (2024, 2, 29)"
  "civil_from_days 20089 = (2025, 1, 1)"
  "civil_from_days (- 719528) = (0, 1, 1)"
  "civil_from_days 2932896 = (9999, 12, 31)"
  "days_from_civil 2025 1 1 = 20089"
  "days_from_civil 1970 1 1 = 0"
  by code_simp+

lemma dateStr_Timestamp:
  assumes "0 \<le> year_of t" and "year_of t \<le> 9999"
  shows "dateStr (Timestamp t)
           = Inr (four_digits (year_of t) @ ''-'' @ two_digits (month_of t) @ ''-'' @ two_digits (day_of t))"
proof -
  have "abs t \<le> 8640000000000000" using assms by (rule valid_of_year)
  then obtain rest where "toISOString t
      = Inr (four_digits (year_of t) @ ''-'' @ two_digits (month_of t) @ ''-'' @ two_digits (day_of t) @ rest)"
    using assms by (simp add: toISOString_def iso_year_def Let_def)
  then show ?thesis by (simp only: dateStr.simps sum.case take10_iso)
qed

lemma dateStr_Str: "dateStr (Plain (Str s)) = Inr (take 10 s)"
  by simp

lemma post_of_date:
  assumes "readFileSync h n = Some c" and "fm h c = Some (attrs, body)"
    and "dateStr (a_date attrs) = Inr d"
  shows "\<exists>p. post_of h n = Inr p \<and> date p = d"
  using assms by (simp add: post_of_def)

text \<open>
  The later revision takes the first ten characters of \<^verbatim>\<open>toISOString()\<close> for a date
  that is a \<^verbatim>\<open>Date\<close> and of \<^verbatim>\<open>String(date)\<close> otherwise (lines 15 to 21). For every
  markdown file it reads, a \<^verbatim>\<open>Date\<close> with a UTC year from 0 to 9999 becomes
  \<^verbatim>\<open>YYYY-MM-DD\<close> (the UTC year, month and day, zero-padded), and a date that is a text
  becomes its first 10 characters, unchanged and unchecked; in both cases the entry is
  produced and nothing is thrown.
\<close>

theorem date_is_normalised:
  assumes rd: "readFileSync h n = Some c" and par: "fm h c = Some (attrs, body)"
  shows "(a_date attrs = Timestamp t \<and> 0 \<le> year_of t \<and> year_of t \<le> 9999
            \<longrightarrow> (\<exists>p. post_of h n = Inr p \<and>
                   date p = four_digits (year_of t) @ ''-'' @ two_digits (month_of t) @ ''-''
                            @ two_digits (day_of t)))
       \<and> (a_date attrs = Plain (Str s) \<longrightarrow> (\<exists>p. post_of h n = Inr p \<and> date p = take 10 s))"
proof (intro conjI impI)
  assume a: "a_date attrs = Timestamp t \<and> 0 \<le> year_of t \<and> year_of t \<le> 9999"
  then have "dateStr (a_date attrs)
      = Inr (four_digits (year_of t) @ ''-'' @ two_digits (month_of t) @ ''-'' @ two_digits (day_of t))"
    using dateStr_Timestamp [of t] by simp
  then show "\<exists>p. post_of h n = Inr p \<and>
      date p = four_digits (year_of t) @ ''-'' @ two_digits (month_of t) @ ''-'' @ two_digits (day_of t)"
    by (rule post_of_date [OF rd par])
next
  assume "a_date attrs = Plain (Str s)"
  then have "dateStr (a_date attrs) = Inr (take 10 s)" by (simp only: dateStr_Str)
  then show "\<exists>p. post_of h n = Inr p \<and> date p = take 10 s"
    by (rule post_of_date [OF rd par])
qed

theorem date_is_normalised_witness:
  "(\<exists>p. post_of example_host ''a.md'' = Inr p \<and> date p = ''2025-01-01'')
   \<and> (\<exists>p. post_of text_date_host ''a.md'' = Inr p \<and> date p = ''January 5,'')"
proof -
  have rd: "readFileSync example_host ''a.md'' = Some a_md" by (simp add: example_host_def)
  have par: "fm example_host a_md = Some (no_attributes\<lparr>a_date := Timestamp 1735689600000\<rparr>, ''A'')"
    by (simp add: example_host_def example_fm_def)
  have rd': "readFileSync text_date_host ''a.md'' = Some a_md"
    by (simp add: text_date_host_def example_host_def)
  have par': "fm text_date_host a_md = Some (no_attributes\<lparr>a_date := Plain (Str ''January 5, 2025'')\<rparr>, a_md)"
    by (simp add: text_date_host_def)
  have y: "year_of 1735689600000 = 2025" by code_simp
  have m: "month_of 1735689600000 = 1" by code_simp
  have d: "day_of 1735689600000 = 1" by code_simp
  have f: "four_digits 2025 @ ''-'' @ two_digits 1 @ ''-'' @ two_digits 1 = ''2025-01-01''"
    by code_simp
  have 1: "\<exists>p. post_of example_host ''a.md'' = Inr p \<and> date p = ''2025-01-01''"
    using date_is_normalised [OF rd par, of 1735689600000 "[]"] y m d f by simp
  have 2: "\<exists>p. post_of text_date_host ''a.md'' = Inr p \<and> date p = ''January 5,''"
    using date_is_normalised [OF rd' par', of 0 "''January 5, 2025''"] by simp
  show ?thesis using 1 2 by (rule conjI)
qed

text \<open>
  C2: a date that is a structured calendar value is formatted as \<^verbatim>\<open>YYYY-MM-DD\<close> in UTC.
  The script does not keep to this, nor to its own comment \<^verbatim>\<open>// YYYY-MM-DD\<close> on line 18,
  for a \<^verbatim>\<open>Date\<close> past the year 9999, whose ISO string begins with a sign and six digits
  of year. A file that declares the instant 10000-01-01T00:00:00Z gets the date
  \<^verbatim>\<open>+010000-01\<close>: ten characters that are no date, the day of the month lost.
\<close>

theorem date_in_year_10000_not_normalised:
  "post_of far_future_host ''a.md'' = Inr (entry_a\<lparr>date := ''+010000-01''\<rparr>)
   \<and> civil_from_days (253402300800000 div msPerDay) = (10000, 1, 1)"
  by code_simp

subsection \<open>C3: a file without front-matter\<close>

lemma strip_md_append: "endsWith n ''.md'' \<Longrightarrow> strip_md n @ ''.md'' = n"
proof -
  assume e: "endsWith n ''.md''"
  then have "drop (length n - 3) n = ''.md''" by (simp add: endsWith_def numeral_3_eq_3)
  then have "take (length n - 3) n @ ''.md'' = n" by (metis append_take_drop_id)
  then show ?thesis using e by (simp add: strip_md_def)
qed

text \<open>
  C3: a readable file in which the front-matter package finds no attributes gives, in
  both revisions, the entry whose title is the file name, whose slug is the file name
  without its \<^verbatim>\<open>.md\<close>, whose tags are the empty array and whose date is the empty
  string; the entry is produced, nothing is thrown.
\<close>

theorem no_front_matter_defaults:
  assumes rd: "readFileSync h n = Some c" and par: "fm h c = Some (no_attributes, body)"
  shows "post_of h n = Inr \<lparr>title = Plain (Str n), date = [], slug = Plain (Str (strip_md n)),
                            filename = n, tags = Plain (Arr [])\<rparr>
       \<and> post_of0 h n = Inr \<lparr>title = Plain (Str n), date = Plain (Str []),
                               slug = Plain (Str (strip_md n)), filename = n, tags = Plain (Arr [])\<rparr>
       \<and> (endsWith n ''.md'' \<longrightarrow> strip_md n @ ''.md'' = n)"
  using rd par by (simp add: post_of_def post_of0_def no_attributes_def or_else_def strip_md_append)

theorem no_front_matter_defaults_witness:
  "post_of example_host ''c.md'' = Inr \<lparr>title = Plain (Str ''c.md''), date = [], slug = Plain (Str ''c''),
                            filename = ''c.md'', tags = Plain (Arr [])\<rparr>
   \<and> post_of0 example_host ''c.md'' = Inr \<lparr>title = Plain (Str ''c.md''), date = Plain (Str []),
                            slug = Plain (Str ''c''), filename = ''c.md'', tags = Plain (Arr [])\<rparr>
   \<and> ''c'' @ ''.md'' = ''c.md''"
proof -
  have rd: "readFileSync example_host ''c.md'' = Some c_md" by (simp add: example_host_def)
  have par: "fm example_host c_md = Some (no_attributes, c_md)"
    by (simp add: example_host_def example_fm_def a_md_def b_md_def c_md_def)
  have s: "strip_md ''c.md'' = ''c''" by code_simp
  have e: "endsWith ''c.md'' ''.md''" by code_simp
  show ?thesis using no_front_matter_defaults [OF rd par] s e by simp
qed

subsection \<open>C7: an unreadable posts directory\<close>

text \<open>
  C7: when \<^verbatim>\<open>readdirSync\<close> throws, the process ends with exit code 1, the exception is
  what it reports, it prints nothing else, and \<^verbatim>\<open>writeFileSync\<close> is never reached, so
  the manifest on disk stays as it was. Both revisions.
\<close>

theorem unreadable_directory_aborts:
  assumes "readdirSync h = None"
  shows "exit_code (generate_manifest h) = 1 \<and> stderr (generate_manifest h) = [FsError ''src/posts'']
       \<and> stdout (generate_manifest h) = [] \<and> written (generate_manifest h) = None
       \<and> exit_code (generate_manifest0 h) = 1 \<and> stderr (generate_manifest0 h) = [FsError ''src/posts'']
       \<and> stdout (generate_manifest0 h) = [] \<and> written (generate_manifest0 h) = None"
  using assms
  by (simp add: generate_manifest_def generate_manifest0_def posts_def posts0_def files_def abort_def)

theorem unreadable_directory_aborts_witness:
  "exit_code (generate_manifest (example_host\<lparr>readdirSync := None\<rparr>)) = 1
   \<and> written (generate_manifest (example_host\<lparr>readdirSync := None\<rparr>)) = None
   \<and> exit_code (generate_manifest0 (example_host\<lparr>readdirSync := None\<rparr>)) = 1
   \<and> written (generate_manifest0 (example_host\<lparr>readdirSync := None\<rparr>)) = None"
  using unreadable_directory_aborts [of "example_host\<lparr>readdirSync := None\<rparr>"] by simp

text \<open>Whatever makes a run fail, nothing is written.\<close>

lemma failure_writes_nothing:
  "exit_code (generate_manifest h) \<noteq> 0 \<Longrightarrow> written (generate_manifest h) = None"
  by (simp add: generate_manifest_def abort_def finish_def split: sum.splits)

subsection \<open>C10: the files of the manifest\<close>

text \<open>
  C10: a manifest that is written has one entry for each name of the directory listing
  that ends in \<^verbatim>\<open>.md\<close> and no other entry, each entry carrying that name in its
  \<^verbatim>\<open>filename\<close> field, so every \<^verbatim>\<open>filename\<close> of the manifest ends in \<^verbatim>\<open>.md\<close>. The later
  revision has them in sorted order (the same names as a multiset), the earlier one in
  the order of the listing.
\<close>

theorem manifest_filenames:
  "(written (generate_manifest h) = Some (DocArr out) \<longrightarrow>
      (\<exists>names. readdirSync h = Some names
         \<and> mset (map filename out) = mset (filter (\<lambda>f. endsWith f ''.md'') names))
      \<and> (\<forall>p \<in> set out. endsWith (filename p) ''.md''))
   \<and> (written (generate_manifest0 h) = Some (DocArr out0) \<longrightarrow>
      (\<exists>names. readdirSync h = Some names
         \<and> map filename out0 = filter (\<lambda>f. endsWith f ''.md'') names)
      \<and> (\<forall>p \<in> set out0. endsWith (filename p) ''.md''))"
proof (intro conjI impI)
  assume "written (generate_manifest h) = Some (DocArr out)"
  then have "posts h = Inr out" by (simp add: generate_manifest_written)
  then obtain names ps where names: "readdirSync h = Some names"
    and ps: "map_result (post_of h) (filter (\<lambda>f. endsWith f ''.md'') names) = Inr ps"
    and out: "out = sort_by (comparefn (Date_parse h) date) ps"
    by (rule posts_Inr)
  have "map filename ps = filter (\<lambda>f. endsWith f ''.md'') names"
    using map_result_all2 [OF ps] post_of_filename by (rule all2_filename)
  moreover have "mset out = mset ps" by (simp add: out mset_sort_by)
  ultimately have m: "mset (map filename out) = mset (filter (\<lambda>f. endsWith f ''.md'') names)"
    by (metis mset_map)
  show "\<exists>names. readdirSync h = Some names
         \<and> mset (map filename out) = mset (filter (\<lambda>f. endsWith f ''.md'') names)"
    using names m by blast
  have "set (map filename out) = set (filter (\<lambda>f. endsWith f ''.md'') names)"
    using m by (metis set_mset_mset)
  then show "\<forall>p \<in> set out. endsWith (filename p) ''.md''" by auto
next
  assume "written (generate_manifest0 h) = Some (DocArr out0)"
  then have "posts0 h = Inr out0" by (simp add: generate_manifest0_written)
  then obtain names where names: "readdirSync h = Some names"
    and ps: "map_result (post_of0 h) (filter (\<lambda>f. endsWith f ''.md'') names) = Inr out0"
    by (rule posts0_Inr)
  have m: "map filename out0 = filter (\<lambda>f. endsWith f ''.md'') names"
    using map_result_all2 [OF ps] post_of0_filename by (rule all2_filename)
  show "\<exists>names. readdirSync h = Some names
         \<and> map filename out0 = filter (\<lambda>f. endsWith f ''.md'') names"
    using names m by blast
  have "set (map filename out0) = set (filter (\<lambda>f. endsWith f ''.md'') names)"
    using m by simp
  then show "\<forall>p \<in> set out0. endsWith (filename p) ''.md''" by auto
qed

lemma example_manifest0_run:
  "generate_manifest0 example_host = finish (manifestPath example_host) example_manifest0"
  by code_simp

theorem manifest_filenames_witness:
  "written (generate_manifest example_host) = Some (DocArr [entry_b, entry_a, entry_c])
   \<and> mset (map filename [entry_b, entry_a, entry_c]) = mset [''a.md'', ''b.md'', ''c.md'']
   \<and> written (generate_manifest0 example_host) = Some (DocArr example_manifest0)
   \<and> map filename example_manifest0 = [''a.md'', ''b.md'', ''c.md'']"
proof -
  have w: "written (generate_manifest example_host) = Some (DocArr [entry_b, entry_a, entry_c])"
    by (simp add: example_manifest written_finish)
  have w0: "written (generate_manifest0 example_host) = Some (DocArr example_manifest0)"
    by (simp add: example_manifest0_run written_finish)
  have names: "readdirSync example_host = Some [''a.md'', ''b.md'', ''c.md'', ''manifest.json'']"
    by (simp add: example_host_def)
  have fl: "filter (\<lambda>f. endsWith f ''.md'') [''a.md'', ''b.md'', ''c.md'', ''manifest.json'']
      = [''a.md'', ''b.md'', ''c.md'']" by code_simp
  from manifest_filenames [of example_host "[entry_b, entry_a, entry_c]" example_manifest0] w
  obtain ns where ns: "readdirSync example_host = Some ns"
    and m: "mset (map filename [entry_b, entry_a, entry_c]) = mset (filter (\<lambda>f. endsWith f ''.md'') ns)"
    by blast
  from manifest_filenames [of example_host "[entry_b, entry_a, entry_c]" example_manifest0] w0
  obtain ns0 where ns0: "readdirSync example_host = Some ns0"
    and m0: "map filename example_manifest0 = filter (\<lambda>f. endsWith f ''.md'') ns0"
    by blast
  have "ns = [''a.md'', ''b.md'', ''c.md'', ''manifest.json'']"
    and "ns0 = [''a.md'', ''b.md'', ''c.md'', ''manifest.json'']"
    using ns ns0 names by simp_all
  then have "mset (map filename [entry_b, entry_a, entry_c]) = mset [''a.md'', ''b.md'', ''c.md'']"
    and "map filename example_manifest0 = [''a.md'', ''b.md'', ''c.md'']"
    using m m0 fl by (simp_all only:)
  then show ?thesis using w w0 by (simp only: simp_thms)
qed

section \<open>Properties of the renderer\<close>

subsection \<open>C4: filtering the list by tag\<close>

lemma filter_result_total:
  "(\<And>x. x \<in> set xs \<Longrightarrow> f x = Inr (P x)) \<Longrightarrow> filter_result f xs = Inr (filter P xs)"
  by (induction xs) simp_all

lemma map_result_total:
  "(\<And>x. x \<in> set xs \<Longrightarrow> f x = Inr (g x)) \<Longrightarrow> map_result f xs = Inr (map g xs)"
  by (induction xs) simp_all

lemma tags_in_array_includes:
  assumes "tags_in_array p"
  shows "(case tags_of p of Inl e \<Rightarrow> Inl e | Inr v \<Rightarrow> includes_tag v t)
           = Inr (Str t \<in> set (entry_tags p))"
proof (cases p)
  case (Obj kvs)
  show ?thesis
  proof (cases "map_of kvs ''tags''")
    case None
    then show ?thesis using Obj by simp
  next
    case (Some v)
    then obtain ts where "v = Arr ts" using assms Obj by (cases v) simp_all
    then show ?thesis using Obj Some by simp
  qed
qed (use assms in simp_all)

lemma tags_in_array_tags_or_none:
  assumes "tags_in_array p"
  shows "tags_or_none p = Inr (entry_tags p)"
proof (cases p)
  case (Obj kvs)
  show ?thesis
  proof (cases "map_of kvs ''tags''")
    case None
    then show ?thesis using Obj by (simp add: tags_or_none_def)
  next
    case (Some v)
    then obtain ts where "v = Arr ts" using assms Obj by (cases v) simp_all
    then show ?thesis using Obj Some by (simp add: tags_or_none_def)
  qed
qed (use assms in simp_all)

text \<open>
  C4, amended: for every manifest whose entries are objects that carry their tags as
  an array, or carry none, and for every tag of the route \<^verbatim>\<open>/blog/tag/:tag\<close>, which is
  never empty, the list shows exactly the entries whose array of tags holds that very
  string, in the order of the manifest: filtering by a tag carried by N entries shows N
  entries, each carrying it. The tags collected for the links above the list are those
  of all the entries, each once.
\<close>

theorem listPosts_filters_by_tag:
  assumes "\<forall>p \<in> set ps. tags_in_array p"
  shows "filteredPosts (Some (c # cs)) ps
           = Inr (filter (\<lambda>p. Str (c # cs) \<in> set (entry_tags p)) ps)
       \<and> length (filter (\<lambda>p. Str (c # cs) \<in> set (entry_tags p)) ps)
           = card {i. i < length ps \<and> Str (c # cs) \<in> set (entry_tags (ps ! i))}
       \<and> allTags ps = Inr (dedup (concat (map entry_tags ps)))"
proof -
  have f: "filteredPosts (Some (c # cs)) ps
      = Inr (filter (\<lambda>p. Str (c # cs) \<in> set (entry_tags p)) ps)"
    unfolding filteredPosts_def option.case
    using assms by (simp add: filter_result_total tags_in_array_includes)
  have "map_result tags_or_none ps = Inr (map entry_tags ps)"
    by (rule map_result_total) (use assms in \<open>simp add: tags_in_array_tags_or_none\<close>)
  then have a: "allTags ps = Inr (dedup (concat (map entry_tags ps)))"
    by (simp add: allTags_def)
  show ?thesis using f a by (simp add: length_filter_conv_card)
qed

theorem listPosts_filters_by_tag_witness:
  "filteredPosts (Some ''azure'')
      [tagged_post ''p'' (Arr [Str ''azure'', Str ''x'']), Obj [(''title'', Str ''q'')],
       tagged_post ''r'' (Arr [Str ''Azure'', Str ''x'']), tagged_post ''s'' (Arr [Str ''x'', Str ''azure'']),
       tagged_post ''u'' (Arr [Str ''azure-functions''])]
     = Inr [tagged_post ''p'' (Arr [Str ''azure'', Str ''x'']),
            tagged_post ''s'' (Arr [Str ''x'', Str ''azure''])]"
proof -
  let ?ps = "[tagged_post ''p'' (Arr [Str ''azure'', Str ''x'']), Obj [(''title'', Str ''q'')],
       tagged_post ''r'' (Arr [Str ''Azure'', Str ''x'']), tagged_post ''s'' (Arr [Str ''x'', Str ''azure'']),
       tagged_post ''u'' (Arr [Str ''azure-functions''])]"
  have ok: "\<forall>p \<in> set ?ps. tags_in_array p" by (simp add: tagged_post_def)
  have fl: "filter (\<lambda>p. Str ''azure'' \<in> set (entry_tags p)) ?ps
      = [tagged_post ''p'' (Arr [Str ''azure'', Str ''x'']),
         tagged_post ''s'' (Arr [Str ''x'', Str ''azure''])]"
    by (simp add: tagged_post_def)
  from listPosts_filters_by_tag [OF ok, of "CHR ''a''" "''zure''"]
  have "filteredPosts (Some ''azure'') ?ps
      = Inr (filter (\<lambda>p. Str ''azure'' \<in> set (entry_tags p)) ?ps)" by simp
  then show ?thesis by (simp only: fl)
qed

text \<open>
  Neither revision of the builder checks that the tags of a file are a list: a file
  that declares \<^verbatim>\<open>tags: azure\<close> gets an entry whose tags are that text. On a text,
  \<^verbatim>\<open>includes\<close> asks whether the tag occurs in it, so the tag \<^verbatim>\<open>az\<close> of the route
  retains an entry whose only tag is \<^verbatim>\<open>azure\<close>.
\<close>

theorem text_tags_matched_by_substring:
  "post_of text_tags_host ''a.md''
     = Inr \<lparr>title = Plain (Str ''a.md''), date = [], slug = Plain (Str ''a''),
            filename = ''a.md'', tags = Plain (Str ''azure'')\<rparr>
   \<and> tags_of (tagged_post ''a'' (Str ''azure'')) = Inr (Str ''azure'')
   \<and> filteredPosts (Some ''az'') [tagged_post ''a'' (Str ''azure'')]
       = Inr [tagged_post ''a'' (Str ''azure'')]
   \<and> ''az'' \<noteq> ''azure''"
proof -
  have 1: "post_of text_tags_host ''a.md''
     = Inr \<lparr>title = Plain (Str ''a.md''), date = [], slug = Plain (Str ''a''),
            filename = ''a.md'', tags = Plain (Str ''azure'')\<rparr>" by code_simp
  have 2: "tags_of (tagged_post ''a'' (Str ''azure'')) = Inr (Str ''azure'')" by code_simp
  have 3: "filteredPosts (Some ''az'') [tagged_post ''a'' (Str ''azure'')]
       = Inr [tagged_post ''a'' (Str ''azure'')]" by code_simp
  show ?thesis using 1 2 3 by simp
qed

subsection \<open>C5: loading a post\<close>











lemma second_of_january:
  "year_of 1735776000000 = 2025 \<and> month_of 1735776000000 = 1 \<and> day_of 1735776000000 = 2"
  by code_simp



subsection \<open>C8: a fetch that fails\<close>

text \<open>
  C8, amended: for every slug, when the fetch rejects (a network error) the post is never
  set and the view is the loading view, with no error shown. A response with an error
  status does not reject: whatever the status, once the front-matter package has split
  the body of the response the post is set from it and the view is the article.
\<close>

theorem rejected_fetch_leaves_loading:
  "(fetch w (post_url sl) = None \<longrightarrow>
      fetchPost w sl = Inl NetworkError \<and> post_state w sl = None
      \<and> BlogPost_view (post_state w sl) = Loading)
   \<and> (fetch w (post_url sl) = Some res \<and> frontMatter w (body_text res) = Some (attrs, body) \<longrightarrow>
      BlogPost_view (post_state w sl)
        = Article \<lparr>p_title = a_title attrs, p_date = a_date attrs, p_content = body\<rparr>)"
  by (simp add: fetchPost_def post_state_def BlogPost_view_def)

theorem rejected_fetch_leaves_loading_witness:
  "post_state offline_browser ''x'' = None
   \<and> BlogPost_view (post_state offline_browser ''x'') = Loading
   \<and> BlogPost_view (post_state example_browser ''x'')
       = Article \<lparr>p_title = Plain (Str ''X''), p_date = Plain (Str ''2025-01-02''), p_content = ''Hello''\<rparr>"
proof -
  have off: "fetch offline_browser (post_url ''x'') = None" by (simp add: offline_browser_def)
  have f: "fetch example_browser (post_url ''x'') = Some \<lparr>status = 200, body_text = x_md\<rparr>"
    by (simp add: example_browser_def)
  have p: "frontMatter example_browser (body_text \<lparr>status = 200, body_text = x_md\<rparr>)
      = Some (x_attributes, ''Hello'')"
    by (simp add: example_browser_def)
  have 1: "post_state offline_browser ''x'' = None
      \<and> BlogPost_view (post_state offline_browser ''x'') = Loading"
    using rejected_fetch_leaves_loading [of offline_browser "''x''"] off by blast
  have 2: "BlogPost_view (post_state example_browser ''x'')
       = Article \<lparr>p_title = Plain (Str ''X''), p_date = Plain (Str ''2025-01-02''), p_content = ''Hello''\<rparr>"
    using rejected_fetch_leaves_loading [of example_browser "''x''" "\<lparr>status = 200, body_text = x_md\<rparr>" x_attributes "''Hello''"] f p
    by (simp add: x_attributes_def)
  show ?thesis using 1 2 by blast
qed

theorem not_found_response_sets_the_post:
  "fetch example_browser (post_url ''missing'') = Some \<lparr>status = 404, body_text = ''Not Found''\<rparr>
   \<and> BlogPost_view (post_state example_browser ''missing'')
       = Article \<lparr>p_title = Plain Undefined, p_date = Plain Undefined, p_content = ''Not Found''\<rparr>"
  by code_simp

subsection \<open>C6: the two manifest shapes\<close>

lemma fetchPosts_array: "fetchPosts parse (Some (DocArr xs)) recent = recent"
  by (simp add: fetchPosts_def try_fetchPosts_def)

text \<open>
  C6: both revisions of the builder write a top-level array. The home page, which reads
  the \<^verbatim>\<open>posts\<close> field of the document, gets no entry from an array (whatever its
  entries are read as) and does get the entry of an object with that field; the list of
  posts, which takes the document itself as the array, throws while rendering an object
  and lists the entry of an array.
\<close>

theorem manifest_shapes_not_interchangeable:
  "(written (generate_manifest h) = Some d \<longrightarrow>
      (\<exists>ps. d = DocArr ps) \<and> fetchPosts parse (Some (map_doc f d)) [] = [])
   \<and> (written (generate_manifest0 h) = Some d0 \<longrightarrow>
      (\<exists>ps. d0 = DocArr ps) \<and> fetchPosts parse (Some (map_doc f0 d0)) [] = [])
   \<and> fetchPosts parse (Some (DocArr xs)) [] = []
   \<and> fetchPosts parse (Some (DocObj [(''posts'', DocArr [x])])) [] = [x]
   \<and> BlogList tag (loadLocalPosts (Some (DocObj kvs)) st) = Inl TypeError
   \<and> BlogList None (loadLocalPosts (Some (DocArr [Obj []])) st)
        = Inr \<lparr>tag_links = [], list_items = [Obj []]\<rparr>"
proof (intro conjI impI)
  assume "written (generate_manifest h) = Some d"
  then obtain ps where d: "d = DocArr ps" by (auto simp: generate_manifest_written)
  show "\<exists>ps. d = DocArr ps" using d by blast
  show "fetchPosts parse (Some (map_doc f d)) [] = []" by (simp add: d fetchPosts_array)
next
  assume "written (generate_manifest0 h) = Some d0"
  then obtain ps where d: "d0 = DocArr ps" by (auto simp: generate_manifest0_written)
  show "\<exists>ps. d0 = DocArr ps" using d by blast
  show "fetchPosts parse (Some (map_doc f0 d0)) [] = []" by (simp add: d fetchPosts_array)
next
  show "fetchPosts parse (Some (DocObj [(''posts'', DocArr [x])])) [] = [x]"
    by (simp add: fetchPosts_def try_fetchPosts_def sort_by_def)
next
  show "BlogList None (loadLocalPosts (Some (DocArr [Obj []])) st)
        = Inr \<lparr>tag_links = [], list_items = [Obj []]\<rparr>"
    by (simp add: loadLocalPosts_def allTags_def tags_or_none_def dedup_def filteredPosts_def)
qed (simp_all add: fetchPosts_array loadLocalPosts_def)

theorem manifest_shapes_witness:
  "written (generate_manifest example_host) = Some (DocArr [entry_b, entry_a, entry_c])
   \<and> fetchPosts iso_date_parse (Some (DocArr (map (as_meta id) [entry_b, entry_a, entry_c]))) [] = []
   \<and> written (generate_manifest0 example_host) = Some (DocArr example_manifest0)
   \<and> fetchPosts iso_date_parse (Some (DocArr (map (as_meta attr_text) example_manifest0))) [] = []"
proof -
  have w: "written (generate_manifest example_host) = Some (DocArr [entry_b, entry_a, entry_c])"
    by (simp add: example_manifest written_finish)
  have w0: "written (generate_manifest0 example_host) = Some (DocArr example_manifest0)"
    by (simp add: example_manifest0_run written_finish)
  from manifest_shapes_not_interchangeable
    [of example_host "DocArr [entry_b, entry_a, entry_c]" iso_date_parse "as_meta id"
        "DocArr example_manifest0" "as_meta attr_text"] w w0
  have "fetchPosts iso_date_parse (Some (map_doc (as_meta id) (DocArr [entry_b, entry_a, entry_c]))) [] = []"
    and "fetchPosts iso_date_parse (Some (map_doc (as_meta attr_text) (DocArr example_manifest0))) [] = []"
    by blast+
  then show ?thesis using w w0 by simp
qed


subsection \<open>C9: code blocks\<close>

lemma match_here_sound:
  "match_here s = Some l \<Longrightarrow>
     \<exists>post. s = ''language-'' @ l @ post \<and> l \<noteq> [] \<and> list_all word_char l
        \<and> (post = [] \<or> \<not> word_char (hd post))"
proof -
  assume m: "match_here s = Some l"
  then have t: "take 9 s = ''language-''" and l: "l = takeWhile word_char (drop 9 s)" and ne: "l \<noteq> []"
    by (auto simp: match_here_def Let_def split: if_splits)
  let ?post = "dropWhile word_char (drop 9 s)"
  have "s = take 9 s @ takeWhile word_char (drop 9 s) @ ?post"
    by simp
  then have "s = ''language-'' @ l @ ?post" using t l by simp
  moreover have "list_all word_char l" using l by (simp add: list_all_iff) (meson set_takeWhileD)
  moreover have "?post = [] \<or> \<not> word_char (hd ?post)" by (metis hd_dropWhile)
  ultimately show ?thesis using ne by blast
qed

lemma match_here_prefix:
  assumes "w \<noteq> []" and "list_all word_char w"
  shows "match_here (''language-'' @ w @ post) = Some (w @ takeWhile word_char post)"
proof -
  have "takeWhile word_char (w @ post) = w @ takeWhile word_char post"
    using assms(2) by (simp add: takeWhile_append2 list_all_iff)
  then show ?thesis using assms(1) by (simp add: match_here_def)
qed

lemma exec_language_sound:
  "exec_language s = Some l \<Longrightarrow>
     \<exists>pre post. s = pre @ ''language-'' @ l @ post \<and> l \<noteq> [] \<and> list_all word_char l
        \<and> (post = [] \<or> \<not> word_char (hd post))
        \<and> (\<forall>p w q. s = p @ ''language-'' @ w @ q \<and> w \<noteq> [] \<and> list_all word_char w
              \<longrightarrow> length pre \<le> length p)"
proof (induction s)
  case Nil
  then show ?case by simp
next
  case (Cons c cs)
  show ?case
  proof (cases "match_here (c # cs)")
    case (Some w)
    then have "w = l" using Cons.prems by simp
    with Some obtain post where "c # cs = ''language-'' @ l @ post" "l \<noteq> []" "list_all word_char l"
      "post = [] \<or> \<not> word_char (hd post)"
      using match_here_sound by blast
    then have "c # cs = [] @ ''language-'' @ l @ post \<and> l \<noteq> [] \<and> list_all word_char l
        \<and> (post = [] \<or> \<not> word_char (hd post))
        \<and> (\<forall>p w q. c # cs = p @ ''language-'' @ w @ q \<and> w \<noteq> [] \<and> list_all word_char w
              \<longrightarrow> length ([] :: string) \<le> length p)" by simp
    then show ?thesis by blast
  next
    case None
    then have "exec_language cs = Some l" using Cons.prems by simp
    then obtain pre post where cs: "cs = pre @ ''language-'' @ l @ post" and l: "l \<noteq> []" "list_all word_char l"
      and mx: "post = [] \<or> \<not> word_char (hd post)"
      and lm: "\<forall>p w q. cs = p @ ''language-'' @ w @ q \<and> w \<noteq> [] \<and> list_all word_char w
              \<longrightarrow> length pre \<le> length p"
      using Cons.IH by blast
    have left: "length (c # pre) \<le> length p"
      if d: "c # cs = p @ ''language-'' @ w @ q" and w: "w \<noteq> []" "list_all word_char w" for p w q
    proof (cases p)
      case Nil
      then have "match_here (c # cs) = Some (w @ takeWhile word_char q)"
        using d match_here_prefix [OF w, of q] by simp
      then show ?thesis using None by simp
    next
      case (Cons c' p')
      then have "cs = p' @ ''language-'' @ w @ q" using d by simp
      then have "length pre \<le> length p'" using lm w by blast
      then show ?thesis using Cons by simp
    qed
    have "c # cs = (c # pre) @ ''language-'' @ l @ post" using cs by simp
    then show ?thesis using l mx left by blast
  qed
qed

lemma exec_language_complete:
  assumes "w \<noteq> []" and "list_all word_char w"
  shows "exec_language (pre @ ''language-'' @ w @ post) \<noteq> None"
proof (induction pre)
  case Nil
  have "exec_language (''language-'' @ w @ post) = Some (w @ takeWhile word_char post)"
    using match_here_prefix [OF assms, of post] by simp
  then show ?case by simp
next
  case (Cons c pre)
  then show ?case by (simp split: option.splits)
qed

lemma exec_language_exact:
  assumes "w \<noteq> []" and "list_all word_char w" and "post = [] \<or> \<not> word_char (hd post)"
  shows "exec_language (''language-'' @ w @ post) = Some w"
proof -
  have "takeWhile word_char post = []" using assms(3) by (cases post) auto
  then show ?thesis using match_here_prefix [OF assms(1,2), of post] by simp
qed

text \<open>
  C9: a class name that contains \<^verbatim>\<open>language-\<close> followed by a word (letters, digits,
  underscores) is rendered by the syntax highlighter, whose language is the whole word
  after the first such \<^verbatim>\<open>language-\<close> of the class name; for a class name that starts
  with the tag that is the word of the tag. A class name that contains no such tag, or no
  class name at all, gives the plain \<^verbatim>\<open>code\<close> element with the class name and the text
  as they came.
\<close>

theorem code_block_highlighting:
  "(cls = pre @ ''language-'' @ w @ post \<and> w \<noteq> [] \<and> list_all word_char w \<longrightarrow>
      (\<exists>l pre' post'. code (Some cls) ch = SyntaxHighlighter l (chomp ch)
          \<and> cls = pre' @ ''language-'' @ l @ post' \<and> l \<noteq> [] \<and> list_all word_char l
          \<and> (post' = [] \<or> \<not> word_char (hd post')) \<and> length pre' \<le> length pre))
   \<and> (v \<noteq> [] \<and> list_all word_char v \<and> (rest = [] \<or> \<not> word_char (hd rest)) \<longrightarrow>
      code (Some (''language-'' @ v @ rest)) ch = SyntaxHighlighter v (chomp ch))
   \<and> ((\<forall>pre w post. cls' = pre @ ''language-'' @ w @ post \<longrightarrow> w = [] \<or> \<not> list_all word_char w) \<longrightarrow>
      code (Some cls') ch = PlainCode (Some cls') ch)
   \<and> code None ch = PlainCode None ch"
proof (intro conjI impI)
  assume a: "cls = pre @ ''language-'' @ w @ post \<and> w \<noteq> [] \<and> list_all word_char w"
  then have "exec_language cls \<noteq> None" using exec_language_complete by blast
  then obtain l where l: "exec_language cls = Some l" by blast
  from exec_language_sound [OF l]
  obtain pre' post' where dec: "cls = pre' @ ''language-'' @ l @ post'"
    and ne: "l \<noteq> []" and wd: "list_all word_char l"
    and mx: "post' = [] \<or> \<not> word_char (hd post')"
    and lm: "\<forall>p w q. cls = p @ ''language-'' @ w @ q \<and> w \<noteq> [] \<and> list_all word_char w
              \<longrightarrow> length pre' \<le> length p"
    by (elim exE conjE)
  have left: "length pre' \<le> length pre" using lm [rule_format, OF a] .
  have hl: "code (Some cls) ch = SyntaxHighlighter l (chomp ch)" using l by (simp add: code_def)
  show "\<exists>l pre' post'. code (Some cls) ch = SyntaxHighlighter l (chomp ch)
          \<and> cls = pre' @ ''language-'' @ l @ post' \<and> l \<noteq> [] \<and> list_all word_char l
          \<and> (post' = [] \<or> \<not> word_char (hd post')) \<and> length pre' \<le> length pre"
    using hl dec ne wd mx left by (intro exI [of _ l] exI [of _ pre'] exI [of _ post'] conjI)
next
  assume "v \<noteq> [] \<and> list_all word_char v \<and> (rest = [] \<or> \<not> word_char (hd rest))"
  then have "exec_language (''language-'' @ v @ rest) = Some v" using exec_language_exact by blast
  then show "code (Some (''language-'' @ v @ rest)) ch = SyntaxHighlighter v (chomp ch)"
    by (simp add: code_def)
next
  assume n: "\<forall>pre w post. cls' = pre @ ''language-'' @ w @ post \<longrightarrow> w = [] \<or> \<not> list_all word_char w"
  have "exec_language cls' = None"
  proof (cases "exec_language cls'")
    case None
    then show ?thesis .
  next
    case (Some l)
    then show ?thesis using exec_language_sound n by blast
  qed
  then show "code (Some cls') ch = PlainCode (Some cls') ch" by (simp add: code_def)
next
  show "code None ch = PlainCode None ch" by (simp add: code_def)
qed

theorem code_block_highlighting_witness:
  "(\<exists>l pre' post'. code (Some ''hljs language-c++'') ''a'' = SyntaxHighlighter l ''a''
        \<and> ''hljs language-c++'' = pre' @ ''language-'' @ l @ post' \<and> l \<noteq> [] \<and> list_all word_char l
        \<and> (post' = [] \<or> \<not> word_char (hd post')) \<and> length pre' \<le> length ''hljs '')
   \<and> code (Some ''language-js'') (''const x=1;'' @ [newline]) = SyntaxHighlighter ''js'' ''const x=1;''
   \<and> code (Some ''hljs'') ''a'' = PlainCode (Some ''hljs'') ''a''"
proof -
  have d: "''hljs language-c++'' = ''hljs '' @ ''language-'' @ ''c'' @ ''++''
      \<and> ''c'' \<noteq> [] \<and> list_all word_char ''c''" by code_simp
  have ca: "chomp ''a'' = ''a''" by code_simp
  have 1: "\<exists>l pre' post'. code (Some ''hljs language-c++'') ''a'' = SyntaxHighlighter l ''a''
        \<and> ''hljs language-c++'' = pre' @ ''language-'' @ l @ post' \<and> l \<noteq> [] \<and> list_all word_char l
        \<and> (post' = [] \<or> \<not> word_char (hd post')) \<and> length pre' \<le> length ''hljs ''"
    using code_block_highlighting [where cls = "''hljs language-c++''" and pre = "''hljs ''"
        and w = "''c''" and post = "''++''" and ch = "''a''", THEN conjunct1, THEN mp, OF d]
    by (simp only: ca)
  have js: "''js'' \<noteq> [] \<and> list_all word_char ''js'' \<and> (([] :: string) = [] \<or> \<not> word_char (hd []))"
    by code_simp
  have cj: "chomp (''const x=1;'' @ [newline]) = ''const x=1;''" by code_simp
  have 2: "code (Some ''language-js'') (''const x=1;'' @ [newline]) = SyntaxHighlighter ''js'' ''const x=1;''"
  proof -
    have e: "code (Some (''language-'' @ ''js'' @ [])) (''const x=1;'' @ [newline])
        = SyntaxHighlighter ''js'' (chomp (''const x=1;'' @ [newline]))"
      using code_block_highlighting [where v = "''js''" and rest = "[]"
        and ch = "''const x=1;'' @ [newline]", THEN conjunct2, THEN conjunct1, THEN mp, OF js] .
    have cls: "''language-'' @ ''js'' @ [] = ''language-js''" by simp
    show ?thesis using e unfolding cls cj .
  qed
  have no: "\<forall>pre w post. ''hljs'' = pre @ ''language-'' @ w @ post \<longrightarrow> w = [] \<or> \<not> list_all word_char w"
  proof (intro allI impI)
    fix pre w post assume "''hljs'' = pre @ ''language-'' @ w @ post"
    then have "length ''hljs'' = length (pre @ ''language-'' @ w @ post)" by (rule arg_cong)
    then show "w = [] \<or> \<not> list_all word_char w" by simp
  qed
  have 3: "code (Some ''hljs'') ''a'' = PlainCode (Some ''hljs'') ''a''"
    using code_block_highlighting [where cls' = "''hljs''" and ch = "''a''",
        THEN conjunct2, THEN conjunct2, THEN conjunct1, THEN mp, OF no] .
  show ?thesis using 1 2 3 by (intro conjI)
qed

end
